theory Spec2Isabelle
  imports Complex_Main "HOL-Library.Sublist"
begin

text \<open>
  A model of \<open>main.py\<close> of the Gmail email scorer: the interpretation of the model's
  completion in \<open>EmailScorer.score_email\<close>, the labels that
  \<open>EmailScoringSystem._apply_scoring_labels\<close> applies, and the ledger
  \<open>EmailDatabase\<close>. Exceptions are values (\<open>Inl\<close> of a sum), the capabilities outside
  the program (the completion client, the mail service, the clock, the JSON decoder) are
  parameters, and state is passed explicitly.
\<close>

section \<open>Python strings\<close>

text \<open>
  A Python \<open>str\<close> is modelled as a \<open>string\<close> (a list of characters). Isabelle's
  characters are the code points 0 to 255, so text with code points above 255 is outside
  the model. \<open>isspace\<close> lists the code points below 256 for which Python's
  \<open>str.isspace\<close> holds; \<open>str.strip()\<close> removes exactly those from both ends.
\<close>

definition isspace :: "char \<Rightarrow> bool" where
  "isspace c = (of_char c \<in> {9, 10, 11, 12, 13, 28, 29, 30, 31, 32, 133, 160 :: nat})"

definition strip :: "string \<Rightarrow> string" where
  "strip s = rev (dropWhile isspace (rev (dropWhile isspace s)))"

text \<open>
  \<open>s.find(sub)\<close>: the lowest index at which \<open>sub\<close> occurs in \<open>s\<close>, or \<open>-1\<close>;
  \<open>s.rfind(sub)\<close>: the highest such index, or \<open>-1\<close>; \<open>sub in s\<close>.
\<close>

fun find_aux :: "string \<Rightarrow> nat \<Rightarrow> string \<Rightarrow> int" where
  "find_aux sub i [] = (if sub = [] then int i else - 1)"
| "find_aux sub i (c # cs) = (if prefix sub (c # cs) then int i else find_aux sub (Suc i) cs)"

definition str_find :: "string \<Rightarrow> string \<Rightarrow> int" where
  "str_find s sub = find_aux sub 0 s"

fun rfind_aux :: "string \<Rightarrow> nat \<Rightarrow> string \<Rightarrow> int" where
  "rfind_aux sub i [] = (if sub = [] then int i else - 1)"
| "rfind_aux sub i (c # cs) =
     (let r = rfind_aux sub (Suc i) cs
      in if 0 \<le> r then r else if prefix sub (c # cs) then int i else - 1)"

definition str_rfind :: "string \<Rightarrow> string \<Rightarrow> int" where
  "str_rfind s sub = rfind_aux sub 0 s"

definition contains :: "string \<Rightarrow> string \<Rightarrow> bool" where
  "contains s sub = (0 \<le> str_find s sub)"

text \<open>
  Slices \<open>s[a:b]\<close> and \<open>s[a:]\<close> with integer bounds: a negative bound counts from the
  end, and every bound is clamped to the length of the string.
\<close>

definition clamp_index :: "nat \<Rightarrow> int \<Rightarrow> nat" where
  "clamp_index n i = (if i < 0 then nat (int n + i) else min n (nat i))"

definition slice :: "string \<Rightarrow> int \<Rightarrow> int \<Rightarrow> string" where
  "slice s a b =
     (let lo = clamp_index (length s) a; hi = clamp_index (length s) b
      in take (hi - lo) (drop lo s))"

definition slice_from :: "string \<Rightarrow> int \<Rightarrow> string" where
  "slice_from s a = drop (clamp_index (length s) a) s"

section \<open>The response interpreter of \<open>EmailScorer.score_email\<close>\<close>

subsection \<open>Thinking tags and code fences\<close>

text \<open>
  Lines 93 to 97 of \<open>main.py\<close>: when the text holds both \<open><think>\<close> and \<open></think>\<close>,
  keep what follows the first \<open></think>\<close>, stripped.
\<close>

definition remove_thinking :: "string \<Rightarrow> string" where
  "remove_thinking json_text =
     (if contains json_text ''<think>'' \<and> contains json_text ''</think>''
      then (let think_end = str_find json_text ''</think>'' + 8
            in strip (slice_from json_text think_end))
      else json_text)"

text \<open>
  Lines 100 to 109: the markdown code fences. Both branches take \<open>end\<close> from
  \<open>rfind\<close>, the last fence marker of the text, and leave the text as it is unless
  \<open>end > start\<close>.
\<close>

definition remove_fences :: "string \<Rightarrow> string" where
  "remove_fences json_text =
     (if contains json_text ''```json'' then
        (let start = str_find json_text ''```json'' + 7;
             end = str_rfind json_text ''```''
         in if end > start then strip (slice json_text start end) else json_text)
      else if contains json_text ''```'' then
        (let start = str_find json_text ''```'' + 3;
             end = str_rfind json_text ''```''
         in if end > start then strip (slice json_text start end) else json_text)
      else json_text)"

subsection \<open>The balanced-brace pattern\<close>

text \<open>
  \<open>re.findall\<close> with the pattern \<open>\{[^{}]*(?:\{[^{}]*\}[^{}]*)*\}\<close>. A match starts at
  an opening brace; \<open>match_braces inner cs\<close> reads the rest and returns the number of
  characters up to and including the closing brace of the match. Outside a nested group
  (\<open>inner = False\<close>) an opening brace enters a group and a closing brace ends the match;
  inside a group a closing brace leaves the group and an opening brace cannot be matched.
  The pattern has no choice to backtrack over: each character class excludes the braces,
  so the match at a start position is unique when there is one.
\<close>

fun match_braces :: "bool \<Rightarrow> string \<Rightarrow> nat option" where
  "match_braces inner [] = None"
| "match_braces inner (c # cs) =
     (if c = CHR ''{'' then
        (if inner then None else map_option Suc (match_braces True cs))
      else if c = CHR ''}'' then
        (if inner then map_option Suc (match_braces False cs) else Some 1)
      else map_option Suc (match_braces inner cs))"

definition match_json_pattern :: "string \<Rightarrow> nat option" where
  "match_json_pattern s =
     (case s of [] \<Rightarrow> None
      | c # cs \<Rightarrow> if c = CHR ''{'' then map_option Suc (match_braces False cs) else None)"

text \<open>
  \<open>findall_aux k s\<close>: the non-overlapping matches of the pattern in \<open>s\<close> from left to
  right, after skipping the \<open>k\<close> characters that remain of the previous match.
\<close>

fun findall_aux :: "nat \<Rightarrow> string \<Rightarrow> string list" where
  "findall_aux k [] = []"
| "findall_aux (Suc k) (c # cs) = findall_aux k cs"
| "findall_aux 0 (c # cs) =
     (case match_json_pattern (c # cs) of
        Some n \<Rightarrow> take n (c # cs) # findall_aux (n - 1) cs
      | None \<Rightarrow> findall_aux 0 cs)"

definition findall_json :: "string \<Rightarrow> string list" where
  "findall_json s = findall_aux 0 s"

subsection \<open>Decoded values, exceptions and the library\<close>

text \<open>
  What \<open>json.loads\<close> returns: \<open>None\<close>, a \<open>bool\<close>, an \<open>int\<close>, a \<open>float\<close>, a \<open>str\<close>, a
  \<open>list\<close> or a \<open>dict\<close> (its items, each key once). A Python \<open>float\<close> is modelled by
  the real number it stands for: rounding to binary64 and the values \<open>nan\<close> and \<open>inf\<close>
  are outside the model.
\<close>

datatype json =
    JNull
  | JBool bool
  | JInt int
  | JFloat real
  | JStr string
  | JArr "json list"
  | JObj "(string \<times> json) list"

text \<open>An exception of class \<open>Exception\<close>: the name of its class and \<open>str(e)\<close>.\<close>

datatype pyexc = PyExc string string

fun exc_str :: "pyexc \<Rightarrow> string" where
  "exc_str (PyExc cls msg) = msg"

text \<open>
  The two library functions whose input grammar is not part of this repository are
  parameters of the model: \<open>json.loads\<close> on a \<open>str\<close>, and \<open>float\<close> on a \<open>str\<close>.
\<close>

record pylib =
  json_loads :: "string \<Rightarrow> pyexc + json"
  float_of_str :: "string \<Rightarrow> pyexc + real"

fun type_name :: "json \<Rightarrow> string" where
  "type_name JNull = ''NoneType''"
| "type_name (JBool b) = ''bool''"
| "type_name (JInt n) = ''int''"
| "type_name (JFloat r) = ''float''"
| "type_name (JStr s) = ''str''"
| "type_name (JArr xs) = ''list''"
| "type_name (JObj d) = ''dict''"

text \<open>
  \<open>float(v)\<close>: a \<open>float\<close> is returned as it is, a \<open>bool\<close> is 1.0 or 0.0, an \<open>int\<close> is
  converted unless it rounds beyond the largest binary64 value (\<open>OverflowError\<close>), a
  \<open>str\<close> is parsed by the library, and \<open>None\<close>, a \<open>list\<close> and a \<open>dict\<close> raise
  \<open>TypeError\<close>.
\<close>

fun py_float :: "pylib \<Rightarrow> json \<Rightarrow> pyexc + real" where
  "py_float lib (JFloat r) = Inr r"
| "py_float lib (JInt n) =
     (if 2 ^ 1024 - 2 ^ 970 \<le> \<bar>n\<bar>
      then Inl (PyExc ''OverflowError'' ''int too large to convert to float'')
      else Inr (of_int n))"
| "py_float lib (JBool b) = Inr (if b then 1 else 0)"
| "py_float lib (JStr s) = float_of_str lib s"
| "py_float lib v =
     Inl (PyExc ''TypeError''
       (''float() argument must be a string or a real number, not ''
          @ [CHR 0x27] @ type_name v @ [CHR 0x27]))"

text \<open>\<open>result.get(key, dflt)\<close>: only a \<open>dict\<close> has the method.\<close>

definition dict_get :: "json \<Rightarrow> string \<Rightarrow> json \<Rightarrow> pyexc + json" where
  "dict_get result key dflt =
     (case result of
        JObj d \<Rightarrow> Inr (case map_of d key of None \<Rightarrow> dflt | Some v \<Rightarrow> v)
      | _ \<Rightarrow> Inl (PyExc ''AttributeError''
               ([CHR 0x27] @ type_name result @ [CHR 0x27]
                  @ '' object has no attribute '' @ [CHR 0x27] @ ''get'' @ [CHR 0x27])))"

definition get_float :: "pylib \<Rightarrow> json \<Rightarrow> string \<Rightarrow> json \<Rightarrow> pyexc + real" where
  "get_float lib result key dflt =
     (case dict_get result key dflt of Inl e \<Rightarrow> Inl e | Inr v \<Rightarrow> py_float lib v)"

subsection \<open>The score\<close>

text \<open>
  The dataclass \<open>EmailScore\<close>. \<open>category\<close> and \<open>reasoning\<close> are annotated \<open>str\<close>, but
  \<open>score_email\<close> stores whatever value the decoded object holds under these keys, so
  the fields hold a decoded value.
\<close>

record EmailScore =
  importance_score :: real
  spam_score :: real
  category :: json
  reasoning :: json
  confidence :: real

text \<open>Lines 131 to 137: the keyword arguments are evaluated in the order written.\<close>

definition build_score :: "pylib \<Rightarrow> json \<Rightarrow> pyexc + EmailScore" where
  "build_score lib result =
     (case get_float lib result ''importance_score'' (JInt 5) of
        Inl e \<Rightarrow> Inl e
      | Inr imp \<Rightarrow>
     (case get_float lib result ''spam_score'' (JInt 0) of
        Inl e \<Rightarrow> Inl e
      | Inr sp \<Rightarrow>
     (case dict_get result ''category'' (JStr ''unknown'') of
        Inl e \<Rightarrow> Inl e
      | Inr cat \<Rightarrow>
     (case dict_get result ''reasoning'' (JStr ''No reasoning provided'') of
        Inl e \<Rightarrow> Inl e
      | Inr rsn \<Rightarrow>
     (case get_float lib result ''confidence'' (JFloat 0.5) of
        Inl e \<Rightarrow> Inl e
      | Inr cf \<Rightarrow>
          Inr \<lparr>importance_score = imp, spam_score = sp, category = cat,
               reasoning = rsn, confidence = cf\<rparr>)))))"

text \<open>
  Lines 99 to 129, on the text left after the thinking tags: the fences, the first match
  of the pattern, and \<open>json.loads\<close>.
\<close>

definition decode_unfenced :: "pylib \<Rightarrow> string \<Rightarrow> pyexc + json" where
  "decode_unfenced lib json_text =
     (case findall_json (remove_fences json_text) of
        [] \<Rightarrow> Inl (PyExc ''ValueError'' ''No JSON found in model response'')
      | m # ms \<Rightarrow> json_loads lib (strip m))"

text \<open>Lines 84 to 129, on the stripped content of the response.\<close>

definition decode_response :: "pylib \<Rightarrow> string \<Rightarrow> pyexc + json" where
  "decode_response lib result_text =
     (if result_text = [] then Inl (PyExc ''ValueError'' ''Empty response from model'')
      else decode_unfenced lib (remove_thinking result_text))"

definition parse_response :: "pylib \<Rightarrow> string \<Rightarrow> pyexc + EmailScore" where
  "parse_response lib result_text =
     (case decode_response lib result_text of
        Inl e \<Rightarrow> Inl e
      | Inr result \<Rightarrow> build_score lib result)"

section \<open>\<open>EmailScorer.score_email\<close>\<close>

text \<open>
  Lines 48 to 65: the prompt, an f-string over \<open>sender\<close>, \<open>subject\<close> and
  \<open>body_preview\<close>. The parameter \<open>email_date\<close> of \<open>score_email\<close> does not occur in it.
\<close>

definition prompt :: "string \<Rightarrow> string \<Rightarrow> string \<Rightarrow> string" where
  "prompt sender subject body_preview =
     ''Classify this email. Output JSON only, no thinking or explanation.\<newline>''
     @ ''\<newline>''
     @ ''SENDER: '' @ sender @ ''\<newline>''
     @ ''SUBJECT: '' @ subject @ ''\<newline>''
     @ ''CONTENT: '' @ body_preview @ ''\<newline>''
     @ ''\<newline>''
     @ ''Rules:\<newline>''
     @ ''- Work emails: importance 7-9\<newline>''
     @ ''- Orders/shipping/deliveries: importance 6-7\<newline>''
     @ ''- Personal emails: importance 6-8\<newline>''
     @ ''- Notifications: importance 3-5\<newline>''
     @ ''- Marketing/newsletters: importance 1-3\<newline>''
     @ ''- Unknown/suspicious senders: higher spam score\<newline>''
     @ ''\<newline>''
     @ ''Orders category includes: Amazon, retailers, shipping companies (UPS/FedEx/USPS), order confirmations, delivery updates, tracking info.\<newline>''
     @ ''\<newline>''
     @ ''Output this exact JSON format:\<newline>''
     @ ''{\"importance_score\": [0-10], \"spam_score\": [0-10], \"category\": \"[work/personal/orders/newsletter/promotion/spam/notification]\", \"reasoning\": \"[brief]\", \"confidence\": [0.0-1.0]}''"

text \<open>
  The completion capability: \<open>client.chat.completions.create\<close> receives the request and
  either raises an exception or returns a response, of which the code reads the
  \<open>message.content\<close> of each choice (a \<open>str\<close> or \<open>None\<close>).
\<close>

record request =
  model :: string
  system_content :: string
  user_content :: string
  temperature :: real
  max_tokens :: nat

type_synonym response = "string option list"

type_synonym completion_client = "request \<Rightarrow> pyexc + response"

text \<open>Lines 46 to 76: the request that \<open>score_email\<close> sends.\<close>

definition completion_request ::
  "string \<Rightarrow> string \<Rightarrow> string \<Rightarrow> string \<Rightarrow> string \<Rightarrow> request" where
  "completion_request model_name sender subject body email_date =
     (let body_preview = (if body \<noteq> [] then take 1500 body else [])
      in \<lparr>model = model_name,
          system_content =
            ''You are a precise email classifier. Respond with JSON only, no thinking or explanation.'',
          user_content = prompt sender subject body_preview,
          temperature = 0.1,
          max_tokens = 200\<rparr>)"

text \<open>Line 78: \<open>response.choices[0].message.content.strip()\<close>.\<close>

definition response_text :: "response \<Rightarrow> pyexc + string" where
  "response_text choices =
     (case choices of
        [] \<Rightarrow> Inl (PyExc ''IndexError'' ''list index out of range'')
      | None # rest \<Rightarrow>
          Inl (PyExc ''AttributeError''
            ([CHR 0x27] @ ''NoneType'' @ [CHR 0x27] @ '' object has no attribute ''
               @ [CHR 0x27] @ ''strip'' @ [CHR 0x27]))
      | Some content # rest \<Rightarrow> Inr (strip content))"

text \<open>The body of the \<open>try\<close> statement, lines 68 to 137.\<close>

definition score_email_try ::
  "pylib \<Rightarrow> completion_client \<Rightarrow> string \<Rightarrow> string \<Rightarrow> string \<Rightarrow> string \<Rightarrow> string
     \<Rightarrow> pyexc + EmailScore" where
  "score_email_try lib client model_name sender subject body email_date =
     (case client (completion_request model_name sender subject body email_date) of
        Inl e \<Rightarrow> Inl e
      | Inr response \<Rightarrow>
          (case response_text response of
             Inl e \<Rightarrow> Inl e
           | Inr result_text \<Rightarrow> parse_response lib result_text))"

text \<open>
  The handler, lines 139 to 148: \<open>except Exception\<close> catches every exception of the
  body and returns the default score, with \<open>str(e)\<close> in its reasoning.
\<close>

definition or_default :: "pyexc + EmailScore \<Rightarrow> EmailScore" where
  "or_default outcome =
     (case outcome of
        Inr score \<Rightarrow> score
      | Inl e \<Rightarrow>
          \<lparr>importance_score = 5.0, spam_score = 0.0, category = JStr ''unknown'',
           reasoning = JStr (''Error during scoring: '' @ exc_str e),
           confidence = 0.1\<rparr>)"

definition score_email ::
  "pylib \<Rightarrow> completion_client \<Rightarrow> string \<Rightarrow> string \<Rightarrow> string \<Rightarrow> string \<Rightarrow> string
     \<Rightarrow> EmailScore" where
  "score_email lib client model_name sender subject body email_date =
     or_default (score_email_try lib client model_name sender subject body email_date)"

section \<open>Labels\<close>

text \<open>
  The message dictionary that \<open>GmailManager._get_email_details\<close> builds.
\<close>

record email =
  msg_id :: string
  msg_sender :: string
  msg_subject :: string
  msg_date :: string
  msg_body :: string
  msg_labels :: "string list"
  msg_thread_id :: string
  msg_snippet :: string

text \<open>
  The mailbox service is outside the program. A \<open>modify\<close> request carries the message
  identifier and the label identifier; the service is a function from the requests made
  so far and the current request to whether the request returns (\<open>True\<close>) or raises an
  exception (\<open>False\<close>), so that each call has an outcome of its own.
\<close>

type_synonym modify_call = "string \<times> string"

type_synonym mail_service = "modify_call list \<Rightarrow> modify_call \<Rightarrow> bool"

text \<open>
  \<open>GmailManager.apply_label\<close>, lines 327 to 342, over the label table \<open>self.labels\<close>
  (label name to label identifier) and the requests made so far.
\<close>

definition apply_label ::
  "mail_service \<Rightarrow> (string \<rightharpoonup> string) \<Rightarrow> modify_call list \<Rightarrow> string \<Rightarrow> string
     \<Rightarrow> bool \<times> modify_call list" where
  "apply_label service labels calls email_id label_name =
     (case labels label_name of
        None \<Rightarrow> (False, calls)
      | Some label_id \<Rightarrow>
          (service calls (email_id, label_id), calls @ [(email_id, label_id)]))"

text \<open>
  The statement \<open>if self.gmail.apply_label(email['id'], name): labels_applied.append(name)\<close>,
  on the pair of \<open>labels_applied\<close> and the requests made so far.
\<close>

definition apply_and_record ::
  "mail_service \<Rightarrow> (string \<rightharpoonup> string) \<Rightarrow> email \<Rightarrow> string
     \<Rightarrow> string list \<times> modify_call list \<Rightarrow> string list \<times> modify_call list" where
  "apply_and_record service labels em label_name st =
     (case apply_label service labels (snd st) (msg_id em) label_name of
        (ok, calls') \<Rightarrow> (if ok then fst st @ [label_name] else fst st, calls'))"

text \<open>\<open>EmailScoringSystem._apply_scoring_labels\<close>, lines 539 to 569.\<close>

definition apply_scoring_labels ::
  "mail_service \<Rightarrow> (string \<rightharpoonup> string) \<Rightarrow> modify_call list \<Rightarrow> email \<Rightarrow> EmailScore
     \<Rightarrow> string list \<times> modify_call list" where
  "apply_scoring_labels service labels calls em score =
     (let st0 = ([], calls);
          st1 = (if category score = JStr ''orders''
                 then apply_and_record service labels em ''EmailScorer/Orders-Shipping'' st0
                 else st0);
          st2 = (if 8 \<le> importance_score score
                 then apply_and_record service labels em ''EmailScorer/High-Importance'' st1
                 else if 5 \<le> importance_score score
                 then apply_and_record service labels em ''EmailScorer/Medium-Importance'' st1
                 else apply_and_record service labels em ''EmailScorer/Low-Importance'' st1);
          st3 = (if 7 \<le> spam_score score
                 then apply_and_record service labels em ''EmailScorer/Likely-Spam'' st2
                 else st2);
          st4 = (if confidence score < 0.6
                 then apply_and_record service labels em ''EmailScorer/Needs-Review'' st3
                 else st3)
      in st4)"

text \<open>
  The decision and the application as the specification words them: the decided labels
  in order (section 4.3), and one independent attempt for each decided label, recording
  the labels whose application succeeded (section 4.4).
\<close>

definition decide :: "EmailScore \<Rightarrow> string list" where
  "decide score =
     (if category score = JStr ''orders'' then [''EmailScorer/Orders-Shipping''] else [])
     @ [if 8 \<le> importance_score score then ''EmailScorer/High-Importance''
        else if 5 \<le> importance_score score then ''EmailScorer/Medium-Importance''
        else ''EmailScorer/Low-Importance'']
     @ (if 7 \<le> spam_score score then [''EmailScorer/Likely-Spam''] else [])
     @ (if confidence score < 0.6 then [''EmailScorer/Needs-Review''] else [])"

fun attempt_each ::
  "mail_service \<Rightarrow> (string \<rightharpoonup> string) \<Rightarrow> string \<Rightarrow> string list \<Rightarrow> modify_call list
     \<Rightarrow> string list \<times> modify_call list" where
  "attempt_each service labels email_id [] calls = ([], calls)"
| "attempt_each service labels email_id (name # names) calls =
     (case apply_label service labels calls email_id name of
        (ok, calls') \<Rightarrow>
          (case attempt_each service labels email_id names calls' of
             (applied, calls'') \<Rightarrow> (if ok then name # applied else applied, calls'')))"

section \<open>The ledger: \<open>EmailDatabase\<close>\<close>

text \<open>
  A row of the table \<open>email_scores\<close> (lines 354 to 370), one field for each column. A
  time stamp is a number of microseconds, ordered as the stored time stamps are.
  \<open>id\<close> is the \<open>AUTOINCREMENT\<close> key and \<open>email_id\<close> is \<open>UNIQUE\<close>. The values bound to
  \<open>category\<close> and \<open>reasoning\<close> are kept as the Python values they are; the rendering of
  a number as text in a \<open>TEXT\<close> column is not modelled. The database holds the rows of
  the table and the largest key ever given out (the table's \<open>sqlite_sequence\<close> entry).
\<close>

record score_row =
  col_id :: nat
  col_email_id :: string
  col_sender :: string
  col_subject :: string
  col_date_processed :: int
  col_importance_score :: real
  col_spam_score :: real
  col_category :: json
  col_reasoning :: json
  col_confidence :: real
  col_model_version :: string
  col_labels_applied :: string
  col_user_feedback :: "string option"

record database =
  email_scores :: "score_row list"
  sequence :: nat

text \<open>\<open>sep.join(xs)\<close>.\<close>

fun join :: "string \<Rightarrow> string list \<Rightarrow> string" where
  "join sep [] = []"
| "join sep [x] = x"
| "join sep (x # y # ys) = x @ sep @ join sep (y # ys)"

text \<open>
  What the \<open>sqlite3\<close> driver does with a value bound to a statement: a \<open>list\<close> and a
  \<open>dict\<close> cannot be bound, and an \<open>int\<close> must fit 64 bits.
\<close>

fun bind_error :: "string \<Rightarrow> json \<Rightarrow> pyexc option" where
  "bind_error pos (JArr xs) =
     Some (PyExc ''ProgrammingError''
       (''Error binding parameter '' @ pos @ '': type '' @ [CHR 0x27] @ ''list'' @ [CHR 0x27]
          @ '' is not supported''))"
| "bind_error pos (JObj d) =
     Some (PyExc ''ProgrammingError''
       (''Error binding parameter '' @ pos @ '': type '' @ [CHR 0x27] @ ''dict'' @ [CHR 0x27]
          @ '' is not supported''))"
| "bind_error pos (JInt n) =
     (if n < - (2 ^ 63) \<or> 2 ^ 63 \<le> n
      then Some (PyExc ''OverflowError'' ''Python int too large to convert to SQLite INTEGER'')
      else None)"
| "bind_error pos v = None"

text \<open>
  \<open>save_score\<close>, lines 383 to 408, at the time \<open>now\<close> that \<open>datetime.now()\<close> returns.
  \<open>INSERT OR REPLACE\<close> deletes the rows whose \<open>email_id\<close> is the new one and inserts
  the new row under a fresh key; the statement lists no \<open>user_feedback\<close>, so the new row
  holds the column's default, \<open>NULL\<close>.
\<close>

definition save_score ::
  "database \<Rightarrow> int \<Rightarrow> email \<Rightarrow> EmailScore \<Rightarrow> string list \<Rightarrow> pyexc + database" where
  "save_score db now em score labels_applied =
     (case bind_error ''7'' (category score) of
        Some e \<Rightarrow> Inl e
      | None \<Rightarrow>
     (case bind_error ''8'' (reasoning score) of
        Some e \<Rightarrow> Inl e
      | None \<Rightarrow>
          (let new_id = Suc (fold max (map col_id (email_scores db)) (sequence db));
               new_row =
                 \<lparr>col_id = new_id,
                  col_email_id = msg_id em,
                  col_sender = msg_sender em,
                  col_subject = msg_subject em,
                  col_date_processed = now,
                  col_importance_score = importance_score score,
                  col_spam_score = spam_score score,
                  col_category = category score,
                  col_reasoning = reasoning score,
                  col_confidence = confidence score,
                  col_model_version = ''v1.0'',
                  col_labels_applied = join '','' labels_applied,
                  col_user_feedback = None\<rparr>
           in Inr \<lparr>email_scores =
                      filter (\<lambda>r. col_email_id r \<noteq> msg_id em) (email_scores db) @ [new_row],
                    sequence = new_id\<rparr>)))"

text \<open>\<open>is_email_processed\<close>, lines 410 to 419.\<close>

definition is_email_processed :: "database \<Rightarrow> string \<Rightarrow> bool" where
  "is_email_processed db email_id =
     list_ex (\<lambda>r. col_email_id r = email_id) (email_scores db)"

text \<open>
  The query of \<open>get_performance_stats\<close>, lines 454 to 465: one result row for each
  category among the rows processed at or after \<open>since_date\<close>.
\<close>

record stats_row =
  total_emails :: nat
  avg_confidence_of :: real
  high_importance :: nat
  likely_spam :: nat
  category_of :: json
  category_count :: nat

definition stats_query :: "database \<Rightarrow> int \<Rightarrow> stats_row list" where
  "stats_query db since_date =
     (let selected = filter (\<lambda>r. since_date \<le> col_date_processed r) (email_scores db)
      in map (\<lambda>c.
                let grp = filter (\<lambda>r. col_category r = c) selected
                in \<lparr>total_emails = length grp,
                    avg_confidence_of = sum_list (map col_confidence grp) / real (length grp),
                    high_importance = length (filter (\<lambda>r. 7 \<le> col_importance_score r) grp),
                    likely_spam = length (filter (\<lambda>r. 7 \<le> col_spam_score r) grp),
                    category_of = c,
                    category_count = length grp\<rparr>)
           (remdups (map col_category selected)))"

record stats =
  total_processed :: nat
  avg_confidence :: real
  high_importance_count :: nat
  spam_count :: nat
  categories :: "json \<rightharpoonup> nat"

text \<open>
  \<open>get_performance_stats\<close>, lines 447 to 476. \<open>window days_back\<close> stands for
  \<open>datetime.now() - timedelta(days=days_back)\<close>, which the library computes or refuses
  with an exception. The division of line 472 raises \<open>ZeroDivisionError\<close> on a zero
  divisor.
\<close>

definition get_performance_stats ::
  "(int \<Rightarrow> pyexc + int) \<Rightarrow> database \<Rightarrow> int \<Rightarrow> pyexc + stats" where
  "get_performance_stats window db days_back =
     (case window days_back of
        Inl e \<Rightarrow> Inl e
      | Inr since_date \<Rightarrow>
          (let results = stats_query db since_date;
               weighted = sum_list (map (\<lambda>r. avg_confidence_of r * real (category_count r)) results);
               counted = sum_list (map category_count results)
           in if results \<noteq> [] \<and> counted = 0
              then Inl (PyExc ''ZeroDivisionError'' ''float division by zero'')
              else Inr \<lparr>total_processed = counted,
                        avg_confidence = (if results \<noteq> [] then weighted / real counted else 0),
                        high_importance_count = sum_list (map high_importance results),
                        spam_count = sum_list (map likely_spam results),
                        categories = map_of (map (\<lambda>r. (category_of r, category_count r)) results)\<rparr>))"

section \<open>A library instance for concrete runs\<close>

text \<open>
  The theorems below hold for every library. To run the program on a concrete response,
  \<open>basic_lib\<close> decodes the part of JSON that has no escape sequence in a string and
  no \<open>NaN\<close> or \<open>Infinity\<close>, and converts the strings of the form
  \<open>[sign] digits [. digits] [exponent]\<close> to a number; on such input it returns what
  \<open>json.loads\<close> and \<open>float\<close> return. Any other input is refused here, with the
  class of the library's exception; the message of a decoding error is left empty.
\<close>

definition json_ws :: "char \<Rightarrow> bool" where
  "json_ws c = (c = CHR '' '' \<or> c = CHR 0x09 \<or> c = CHR 0x0A \<or> c = CHR 0x0D)"

definition skip_ws :: "string \<Rightarrow> string" where
  "skip_ws cs = dropWhile json_ws cs"

definition is_digit :: "char \<Rightarrow> bool" where
  "is_digit c = (48 \<le> (of_char c :: nat) \<and> (of_char c :: nat) \<le> 57)"

definition nat_of_digits :: "string \<Rightarrow> nat" where
  "nat_of_digits ds = foldl (\<lambda>n c. 10 * n + (of_char c - 48)) 0 ds"

text \<open>The characters of a string literal after its opening quote, and the rest.\<close>

fun lex_string :: "string \<Rightarrow> (string \<times> string) option" where
  "lex_string [] = None"
| "lex_string (c # cs) =
     (if c = CHR 0x22 then Some ([], cs)
      else if c = CHR 0x5C \<or> (of_char c :: nat) < 32 then None
      else (case lex_string cs of None \<Rightarrow> None | Some (s, rest) \<Rightarrow> Some (c # s, rest)))"

text \<open>An optional exponent \<open>[eE][+-]?digits\<close>.\<close>

definition lex_exponent :: "string \<Rightarrow> int option \<times> string" where
  "lex_exponent cs =
     (case cs of
        [] \<Rightarrow> (None, cs)
      | c # r \<Rightarrow>
          if c = CHR ''e'' \<or> c = CHR ''E'' then
            (let neg = (case r of [] \<Rightarrow> False | d # r' \<Rightarrow> d = CHR ''-'');
                 r1 = (case r of [] \<Rightarrow> r
                       | d # r' \<Rightarrow> if d = CHR ''-'' \<or> d = CHR ''+'' then r' else r);
                 ds = takeWhile is_digit r1
             in if ds = [] then (None, cs)
                else (Some (if neg then - int (nat_of_digits ds) else int (nat_of_digits ds)),
                      dropWhile is_digit r1))
          else (None, cs))"

definition scale10 :: "real \<Rightarrow> int \<Rightarrow> real" where
  "scale10 x e = (if 0 \<le> e then x * 10 ^ nat e else x / 10 ^ nat (- e))"

text \<open>A JSON number \<open>-?(0|[1-9][0-9]*)(.[0-9]+)?([eE][+-]?[0-9]+)?\<close>.\<close>

definition lex_number :: "string \<Rightarrow> (json \<times> string) option" where
  "lex_number cs =
     (let neg = (case cs of [] \<Rightarrow> False | c # r \<Rightarrow> c = CHR ''-'');
          cs1 = (if neg then tl cs else cs);
          ip = (case cs1 of [] \<Rightarrow> []
                | c # r \<Rightarrow> if c = CHR ''0'' then [c] else takeWhile is_digit cs1);
          cs2 = drop (length ip) cs1;
          fp = (case cs2 of [] \<Rightarrow> []
                | c # r \<Rightarrow> if c = CHR ''.'' then takeWhile is_digit r else []);
          cs3 = (if fp = [] then cs2 else drop (Suc (length fp)) cs2);
          ex = lex_exponent cs3
      in if ip = [] then None
         else if fp = [] \<and> fst ex = None then
           Some (JInt (if neg then - int (nat_of_digits ip) else int (nat_of_digits ip)), cs3)
         else
           (let m = real (nat_of_digits ip) + real (nat_of_digits fp) / 10 ^ length fp;
                v = scale10 m (case fst ex of None \<Rightarrow> 0 | Some e \<Rightarrow> e)
            in Some (JFloat (if neg then - v else v), snd ex)))"

text \<open>\<open>d[k] = v\<close> on the items of a \<open>dict\<close>: a key that is present keeps its place.\<close>

fun dict_set :: "(string \<times> json) list \<Rightarrow> string \<Rightarrow> json \<Rightarrow> (string \<times> json) list" where
  "dict_set [] k v = [(k, v)]"
| "dict_set ((k', v') # d) k v = (if k' = k then (k, v) # d else (k', v') # dict_set d k v)"

text \<open>
  The decoder, with fuel for the nesting depth: \<open>decode_value\<close> reads a value,
  \<open>decode_members\<close> the members of an object from a key on, and \<open>decode_elements\<close> the
  elements of an array from a value on.
\<close>

fun decode_value :: "nat \<Rightarrow> string \<Rightarrow> (json \<times> string) option"
  and decode_members ::
    "nat \<Rightarrow> (string \<times> json) list \<Rightarrow> string \<Rightarrow> (json \<times> string) option"
  and decode_elements :: "nat \<Rightarrow> json list \<Rightarrow> string \<Rightarrow> (json \<times> string) option"
where
  "decode_value 0 cs = None"
| "decode_value (Suc n) cs =
     (case cs of
        [] \<Rightarrow> None
      | c # rest \<Rightarrow>
          if c = CHR 0x22 then
            (case lex_string rest of None \<Rightarrow> None | Some (s, r) \<Rightarrow> Some (JStr s, r))
          else if c = CHR ''{'' then
            (case skip_ws rest of
               [] \<Rightarrow> None
             | d # r \<Rightarrow> if d = CHR ''}'' then Some (JObj [], r)
                        else decode_members n [] (d # r))
          else if c = CHR ''['' then
            (case skip_ws rest of
               [] \<Rightarrow> None
             | d # r \<Rightarrow> if d = CHR '']'' then Some (JArr [], r)
                        else decode_elements n [] (d # r))
          else if prefix ''null'' cs then Some (JNull, drop 4 cs)
          else if prefix ''true'' cs then Some (JBool True, drop 4 cs)
          else if prefix ''false'' cs then Some (JBool False, drop 5 cs)
          else lex_number cs)"
| "decode_members 0 acc cs = None"
| "decode_members (Suc n) acc cs =
     (case cs of
        [] \<Rightarrow> None
      | c # rest \<Rightarrow>
          if c \<noteq> CHR 0x22 then None
          else
            (case lex_string rest of
               None \<Rightarrow> None
             | Some (k, r1) \<Rightarrow>
                 (case skip_ws r1 of
                    [] \<Rightarrow> None
                  | c2 # r2 \<Rightarrow>
                      if c2 \<noteq> CHR '':'' then None
                      else
                        (case decode_value n (skip_ws r2) of
                           None \<Rightarrow> None
                         | Some (v, r3) \<Rightarrow>
                             (case skip_ws r3 of
                                [] \<Rightarrow> None
                              | c4 # r4 \<Rightarrow>
                                  if c4 = CHR ''}'' then Some (JObj (dict_set acc k v), r4)
                                  else if c4 = CHR '','' then
                                    decode_members n (dict_set acc k v) (skip_ws r4)
                                  else None)))))"
| "decode_elements 0 acc cs = None"
| "decode_elements (Suc n) acc cs =
     (case decode_value n cs of
        None \<Rightarrow> None
      | Some (v, r1) \<Rightarrow>
          (case skip_ws r1 of
             [] \<Rightarrow> None
           | c2 # r2 \<Rightarrow>
               if c2 = CHR '']'' then Some (JArr (acc @ [v]), r2)
               else if c2 = CHR '','' then decode_elements n (acc @ [v]) (skip_ws r2)
               else None))"

definition json_loads_basic :: "string \<Rightarrow> pyexc + json" where
  "json_loads_basic s =
     (case decode_value (Suc (length s)) (skip_ws s) of
        None \<Rightarrow> Inl (PyExc ''JSONDecodeError'' [])
      | Some (v, rest) \<Rightarrow>
          if skip_ws rest = [] then Inr v else Inl (PyExc ''JSONDecodeError'' []))"

definition float_of_str_basic :: "string \<Rightarrow> pyexc + real" where
  "float_of_str_basic s =
     (let t = strip s;
          neg = (case t of [] \<Rightarrow> False | c # r \<Rightarrow> c = CHR ''-'');
          t1 = (case t of [] \<Rightarrow> t
                | c # r \<Rightarrow> if c = CHR ''-'' \<or> c = CHR ''+'' then r else t);
          ip = takeWhile is_digit t1;
          t2 = dropWhile is_digit t1;
          fp = (case t2 of [] \<Rightarrow> []
                | c # r \<Rightarrow> if c = CHR ''.'' then takeWhile is_digit r else []);
          t3 = (case t2 of [] \<Rightarrow> t2
                | c # r \<Rightarrow> if c = CHR ''.'' then dropWhile is_digit r else t2);
          ex = lex_exponent t3;
          m = real (nat_of_digits ip) + real (nat_of_digits fp) / 10 ^ length fp;
          v = scale10 m (case fst ex of None \<Rightarrow> 0 | Some e \<Rightarrow> e)
      in if ip @ fp \<noteq> [] \<and> snd ex = []
         then Inr (if neg then - v else v)
         else Inl (PyExc ''ValueError''
                (''could not convert string to float: '' @ [CHR 0x27] @ s @ [CHR 0x27])))"

definition basic_lib :: pylib where
  "basic_lib = \<lparr>json_loads = json_loads_basic, float_of_str = float_of_str_basic\<rparr>"

text \<open>
  Capabilities for concrete runs: a completion client that answers every request with one
  choice of the given content, and one that raises the given exception; the label table
  that \<open>GmailManager._setup_labels\<close> leaves when every label exists; a mail service that
  accepts every request, and one that refuses the requests for the given label
  identifiers; and a clock whose window start is \<open>now\<close> minus the days.
\<close>

definition reply :: "string \<Rightarrow> completion_client" where
  "reply content req = Inr [Some content]"

definition failing :: "pyexc \<Rightarrow> completion_client" where
  "failing e req = Inl e"

definition all_labels :: "string \<rightharpoonup> string" where
  "all_labels =
     map_of
       [(''EmailScorer/High-Importance'', ''Label_1''),
        (''EmailScorer/Medium-Importance'', ''Label_2''),
        (''EmailScorer/Low-Importance'', ''Label_3''),
        (''EmailScorer/Orders-Shipping'', ''Label_4''),
        (''EmailScorer/Likely-Spam'', ''Label_5''),
        (''EmailScorer/Needs-Review'', ''Label_6''),
        (''EmailScorer/Training-Data/Correct'', ''Label_7''),
        (''EmailScorer/Training-Data/Incorrect'', ''Label_8'')]"

definition accepting :: mail_service where
  "accepting calls call = True"

definition refusing :: "string list \<Rightarrow> mail_service" where
  "refusing label_ids calls call = (snd call \<notin> set label_ids)"

definition window_at :: "int \<Rightarrow> int \<Rightarrow> pyexc + int" where
  "window_at now days_back = Inr (now - days_back * 86400000000)"

section \<open>Definitions for the statements\<close>

text \<open>
  \<open>attempt_from\<close> continues \<open>attempt_each\<close> from a pair of the labels applied and the
  requests made so far. \<open>requests_for\<close> lists the requests for the names that the label
  table resolves, and \<open>succeeded\<close> says whether the attempt for the \<open>i\<close>-th name
  succeeds, when the requests for the names before it have been made.
\<close>

definition attempt_from ::
  "mail_service \<Rightarrow> (string \<rightharpoonup> string) \<Rightarrow> string \<Rightarrow> string list
     \<Rightarrow> string list \<times> modify_call list \<Rightarrow> string list \<times> modify_call list" where
  "attempt_from service labels email_id names st =
     (case attempt_each service labels email_id names (snd st) of
        (applied, calls') \<Rightarrow> (fst st @ applied, calls'))"

definition requests_for :: "(string \<rightharpoonup> string) \<Rightarrow> string \<Rightarrow> string list \<Rightarrow> modify_call list" where
  "requests_for labels email_id names =
     List.map_filter (\<lambda>name. map_option (\<lambda>label_id. (email_id, label_id)) (labels name)) names"

definition succeeded ::
  "mail_service \<Rightarrow> (string \<rightharpoonup> string) \<Rightarrow> modify_call list \<Rightarrow> string \<Rightarrow> string list \<Rightarrow> nat
     \<Rightarrow> bool" where
  "succeeded service labels calls email_id names i =
     (case labels (names ! i) of
        None \<Rightarrow> False
      | Some label_id \<Rightarrow>
          service (calls @ requests_for labels email_id (take i names)) (email_id, label_id))"

text \<open>A message, two scores and three states of the ledger, for concrete runs.\<close>

definition example_email :: email where
  "example_email =
     \<lparr>msg_id = ''18c2f0a1'', msg_sender = ''Shop <orders@shop.example>'',
      msg_subject = ''Your order has shipped'', msg_date = ''Mon, 1 Jan 2024 10:00:00 +0000'',
      msg_body = ''Your parcel is on its way.'', msg_labels = [''INBOX''],
      msg_thread_id = ''18c2f0a1'', msg_snippet = ''Your parcel''\<rparr>"

definition orders_score :: EmailScore where
  "orders_score =
     \<lparr>importance_score = 6.5, spam_score = 0, category = JStr ''orders'',
      reasoning = JStr ''Shipping notice'', confidence = 0.8\<rparr>"

definition doubtful_score :: EmailScore where
  "doubtful_score =
     \<lparr>importance_score = 9, spam_score = 8, category = JStr ''orders'',
      reasoning = JStr ''Unclear'', confidence = 0.5\<rparr>"

definition reviewed_db :: database where
  "reviewed_db =
     \<lparr>email_scores =
        [\<lparr>col_id = 1, col_email_id = ''18c2f0a1'', col_sender = ''Shop <orders@shop.example>'',
          col_subject = ''Your order has shipped'', col_date_processed = 1000000,
          col_importance_score = 3, col_spam_score = 1, col_category = JStr ''promotion'',
          col_reasoning = JStr ''Looks like an advert'', col_confidence = 0.7,
          col_model_version = ''v1.0'', col_labels_applied = ''EmailScorer/Low-Importance'',
          col_user_feedback = Some ''incorrect''\<rparr>],
      sequence = 1\<rparr>"

definition saved_once :: database where
  "saved_once =
     \<lparr>email_scores =
        [\<lparr>col_id = 2, col_email_id = ''18c2f0a1'', col_sender = ''Shop <orders@shop.example>'',
          col_subject = ''Your order has shipped'', col_date_processed = 2000000,
          col_importance_score = 6.5, col_spam_score = 0, col_category = JStr ''orders'',
          col_reasoning = JStr ''Shipping notice'', col_confidence = 0.8,
          col_model_version = ''v1.0'',
          col_labels_applied = ''EmailScorer/Orders-Shipping,EmailScorer/Medium-Importance'',
          col_user_feedback = None\<rparr>],
      sequence = 2\<rparr>"

definition saved_twice :: database where
  "saved_twice =
     \<lparr>email_scores =
        [\<lparr>col_id = 3, col_email_id = ''18c2f0a1'', col_sender = ''Shop <orders@shop.example>'',
          col_subject = ''Your order has shipped'', col_date_processed = 3000000,
          col_importance_score = 9, col_spam_score = 8, col_category = JStr ''orders'',
          col_reasoning = JStr ''Unclear'', col_confidence = 0.5,
          col_model_version = ''v1.0'',
          col_labels_applied = ''EmailScorer/High-Importance,EmailScorer/Needs-Review'',
          col_user_feedback = None\<rparr>],
      sequence = 3\<rparr>"

text \<open>
  The extraction for a tagged fence as section 4.1, step 3 of the specification words it:
  the content between the first fence tagged as JSON and the next fence marker after it.
\<close>

definition next_fence_content :: "string \<Rightarrow> string" where
  "next_fence_content json_text =
     (let after_tag = slice_from json_text (str_find json_text ''```json'' + 7)
      in slice after_tag 0 (str_find after_tag ''```''))"

text \<open>
  \<open>coercible lib d key\<close>: the key is absent from the decoded object, or \<open>float\<close> accepts
  the value it holds.
\<close>

definition coercible :: "pylib \<Rightarrow> (string \<times> json) list \<Rightarrow> string \<Rightarrow> bool" where
  "coercible lib d key =
     (case map_of d key of
        None \<Rightarrow> True
      | Some v \<Rightarrow> (case py_float lib v of Inl e \<Rightarrow> False | Inr x \<Rightarrow> True))"

text \<open>Replies of the model, for concrete runs.\<close>

definition two_fences :: string where
  "two_fences = ''```json\<newline>see below\<newline>```\<newline>{\"importance_score\": 9}\<newline>```''"

definition thinking_reply :: string where
  "thinking_reply =
     ''I think... <think>blah</think> ```json\<newline>{\"importance_score\": 9, \"spam_score\": 1, \"category\": \"finance\", \"confidence\": 0.92}\<newline>```''"

definition untagged_reply :: string where
  "untagged_reply = ''Result: ```{\"spam_score\": 3}``` done''"

definition finance_reply :: string where
  "finance_reply =
     ''{\"importance_score\": 9, \"spam_score\": 1, \"category\": \"finance\", \"confidence\": 0.92}''"

section \<open>Lemmas\<close>

subsection \<open>Searching and stripping\<close>

lemma find_aux_cases:
  "(find_aux sub i s = - 1 \<and> (\<forall>j \<le> length s. \<not> prefix sub (drop j s)))
   \<or> (\<exists>k \<le> length s. find_aux sub i s = int (i + k) \<and> prefix sub (drop k s)
         \<and> (\<forall>j<k. \<not> prefix sub (drop j s)))"
proof (induction s arbitrary: i)
  case Nil
  then show ?case by auto
next
  case (Cons c cs)
  show ?case
  proof (cases "prefix sub (c # cs)")
    case True
    then show ?thesis by auto
  next
    case False
    from Cons.IH [of "Suc i"] show ?thesis
    proof
      assume a: "find_aux sub (Suc i) cs = - 1 \<and> (\<forall>j \<le> length cs. \<not> prefix sub (drop j cs))"
      have "\<forall>j \<le> length (c # cs). \<not> prefix sub (drop j (c # cs))"
      proof (intro allI impI)
        fix j assume "j \<le> length (c # cs)"
        then show "\<not> prefix sub (drop j (c # cs))"
          using a False by (cases j) auto
      qed
      with a False show ?thesis by simp
    next
      assume "\<exists>k \<le> length cs. find_aux sub (Suc i) cs = int (Suc i + k) \<and> prefix sub (drop k cs)
         \<and> (\<forall>j<k. \<not> prefix sub (drop j cs))"
      then obtain k where k: "k \<le> length cs" "find_aux sub (Suc i) cs = int (Suc i + k)"
        "prefix sub (drop k cs)" "\<forall>j<k. \<not> prefix sub (drop j cs)" by blast
      have "\<forall>j<Suc k. \<not> prefix sub (drop j (c # cs))"
      proof (intro allI impI)
        fix j assume "j < Suc k"
        then show "\<not> prefix sub (drop j (c # cs))"
          using k(4) False by (cases j) auto
      qed
      with k False have "Suc k \<le> length (c # cs) \<and> find_aux sub i (c # cs) = int (i + Suc k)
          \<and> prefix sub (drop (Suc k) (c # cs)) \<and> (\<forall>j<Suc k. \<not> prefix sub (drop j (c # cs)))"
        by simp
      then show ?thesis by blast
    qed
  qed
qed

lemma str_find_first:
  assumes "k \<le> length s" "prefix sub (drop k s)" "\<forall>j<k. \<not> prefix sub (drop j s)"
  shows "str_find s sub = int k"
proof -
  from find_aux_cases [of sub 0 s] show ?thesis
  proof
    assume "find_aux sub 0 s = - 1 \<and> (\<forall>j \<le> length s. \<not> prefix sub (drop j s))"
    with assms show ?thesis by blast
  next
    assume "\<exists>k \<le> length s. find_aux sub 0 s = int (0 + k) \<and> prefix sub (drop k s)
         \<and> (\<forall>j<k. \<not> prefix sub (drop j s))"
    then obtain k' where k': "k' \<le> length s" "find_aux sub 0 s = int k'"
        "prefix sub (drop k' s)" "\<forall>j<k'. \<not> prefix sub (drop j s)" by auto
    have "k' = k" using assms k' by (meson linorder_neqE_nat)
    with k' show ?thesis by (simp add: str_find_def)
  qed
qed

lemma str_find_found:
  assumes "0 \<le> str_find s sub"
  shows "\<exists>k \<le> length s. str_find s sub = int k \<and> prefix sub (drop k s)
         \<and> (\<forall>j<k. \<not> prefix sub (drop j s))"
  using find_aux_cases [of sub 0 s] assms by (auto simp: str_find_def)

lemma contains_iff: "contains s sub \<longleftrightarrow> (\<exists>a b. s = a @ sub @ b)"
proof
  assume "contains s sub"
  then obtain k where "k \<le> length s" "prefix sub (drop k s)"
    using str_find_found [of s sub] by (auto simp: contains_def)
  then obtain b where "drop k s = sub @ b" by (auto simp: prefix_def)
  then have "s = take k s @ sub @ b" by (metis append_take_drop_id)
  then show "\<exists>a b. s = a @ sub @ b" by blast
next
  assume "\<exists>a b. s = a @ sub @ b"
  then obtain a b where s: "s = a @ sub @ b" by blast
  then have "prefix sub (drop (length a) s)" "length a \<le> length s" by auto
  with find_aux_cases [of sub 0 s] show "contains s sub"
    by (auto simp: contains_def str_find_def)
qed

lemma rfind_aux_cases:
  "(rfind_aux sub i s = - 1 \<and> (\<forall>j \<le> length s. \<not> prefix sub (drop j s)))
   \<or> (\<exists>k \<le> length s. rfind_aux sub i s = int (i + k) \<and> prefix sub (drop k s)
         \<and> (\<forall>j. k < j \<and> j \<le> length s \<longrightarrow> \<not> prefix sub (drop j s)))"
proof (induction s arbitrary: i)
  case Nil
  then show ?case by auto
next
  case (Cons c cs)
  from Cons.IH [of "Suc i"] show ?case
  proof
    assume a: "rfind_aux sub (Suc i) cs = - 1 \<and> (\<forall>j \<le> length cs. \<not> prefix sub (drop j cs))"
    show ?thesis
    proof (cases "prefix sub (c # cs)")
      case True
      have "\<forall>j. 0 < j \<and> j \<le> length (c # cs) \<longrightarrow> \<not> prefix sub (drop j (c # cs))"
      proof (intro allI impI)
        fix j assume "0 < j \<and> j \<le> length (c # cs)"
        then show "\<not> prefix sub (drop j (c # cs))" using a by (cases j) auto
      qed
      with a True have "0 \<le> length (c # cs) \<and> rfind_aux sub i (c # cs) = int (i + 0)
          \<and> prefix sub (drop 0 (c # cs))
          \<and> (\<forall>j. 0 < j \<and> j \<le> length (c # cs) \<longrightarrow> \<not> prefix sub (drop j (c # cs)))"
        by simp
      then show ?thesis by blast
    next
      case False
      have "\<forall>j \<le> length (c # cs). \<not> prefix sub (drop j (c # cs))"
      proof (intro allI impI)
        fix j assume "j \<le> length (c # cs)"
        then show "\<not> prefix sub (drop j (c # cs))" using a False by (cases j) auto
      qed
      with a False show ?thesis by simp
    qed
  next
    assume "\<exists>k \<le> length cs. rfind_aux sub (Suc i) cs = int (Suc i + k) \<and> prefix sub (drop k cs)
         \<and> (\<forall>j. k < j \<and> j \<le> length cs \<longrightarrow> \<not> prefix sub (drop j cs))"
    then obtain k where k: "k \<le> length cs" "rfind_aux sub (Suc i) cs = int (Suc i + k)"
        "prefix sub (drop k cs)" "\<forall>j. k < j \<and> j \<le> length cs \<longrightarrow> \<not> prefix sub (drop j cs)"
      by blast
    have "\<forall>j. Suc k < j \<and> j \<le> length (c # cs) \<longrightarrow> \<not> prefix sub (drop j (c # cs))"
    proof (intro allI impI)
      fix j assume "Suc k < j \<and> j \<le> length (c # cs)"
      then show "\<not> prefix sub (drop j (c # cs))" using k(4) by (cases j) auto
    qed
    with k have "Suc k \<le> length (c # cs) \<and> rfind_aux sub i (c # cs) = int (i + Suc k)
          \<and> prefix sub (drop (Suc k) (c # cs))
          \<and> (\<forall>j. Suc k < j \<and> j \<le> length (c # cs) \<longrightarrow> \<not> prefix sub (drop j (c # cs)))"
      by simp
    then show ?thesis by blast
  qed
qed

lemma str_rfind_last:
  assumes "k \<le> length s" "prefix sub (drop k s)"
    "\<forall>j. k < j \<and> j \<le> length s \<longrightarrow> \<not> prefix sub (drop j s)"
  shows "str_rfind s sub = int k"
proof -
  from rfind_aux_cases [of sub 0 s] show ?thesis
  proof
    assume "rfind_aux sub 0 s = - 1 \<and> (\<forall>j \<le> length s. \<not> prefix sub (drop j s))"
    with assms show ?thesis by blast
  next
    assume "\<exists>k \<le> length s. rfind_aux sub 0 s = int (0 + k) \<and> prefix sub (drop k s)
         \<and> (\<forall>j. k < j \<and> j \<le> length s \<longrightarrow> \<not> prefix sub (drop j s))"
    then obtain k' where k': "k' \<le> length s" "rfind_aux sub 0 s = int k'"
        "prefix sub (drop k' s)" "\<forall>j. k' < j \<and> j \<le> length s \<longrightarrow> \<not> prefix sub (drop j s)"
      by auto
    have "k' = k" using assms k' by (meson linorder_neqE_nat)
    with k' show ?thesis by (simp add: str_rfind_def)
  qed
qed

lemma str_rfind_found:
  assumes "0 \<le> str_rfind s sub"
  shows "\<exists>k \<le> length s. str_rfind s sub = int k \<and> prefix sub (drop k s)
         \<and> (\<forall>j. k < j \<and> j \<le> length s \<longrightarrow> \<not> prefix sub (drop j s))"
  using rfind_aux_cases [of sub 0 s] assms by (auto simp: str_rfind_def)

lemma dropWhile_sandwich:
  assumes "sub \<noteq> []" "\<not> P (hd sub)"
  shows "dropWhile P (a @ sub @ b) = dropWhile P a @ sub @ b"
  using assms by (induction a) (auto simp: neq_Nil_conv)

lemma strip_sandwich:
  assumes "sub \<noteq> []" "\<not> isspace (hd sub)" "\<not> isspace (last sub)"
  shows "strip (a @ sub @ b) = dropWhile isspace a @ sub @ rev (dropWhile isspace (rev b))"
proof -
  have "rev (dropWhile isspace a @ sub @ b) = rev b @ rev sub @ rev (dropWhile isspace a)"
    by simp
  moreover have "dropWhile isspace (rev b @ rev sub @ rev (dropWhile isspace a))
      = dropWhile isspace (rev b) @ rev sub @ rev (dropWhile isspace a)"
    using assms by (intro dropWhile_sandwich) (auto simp: hd_rev)
  ultimately show ?thesis
    using assms by (simp add: strip_def dropWhile_sandwich)
qed

lemma rstrip_Cons:
  "rev (dropWhile P (rev (x # b))) =
     (if (\<forall>y\<in>set b. P y) \<and> P x then [] else x # rev (dropWhile P (rev b)))"
  by (auto simp: dropWhile_append)

lemma dropWhile_rev_all: "\<forall>y\<in>set b. P y \<Longrightarrow> dropWhile P (rev b) = []"
  by (simp add: dropWhile_eq_Nil_conv)

lemma lstrip_rstrip_commute:
  "dropWhile P (rev (dropWhile P (rev b))) = rev (dropWhile P (rev (dropWhile P b)))"
proof (induction b)
  case Nil
  then show ?case by simp
next
  case (Cons x b)
  show ?case
  proof (cases "P x")
    case True
    then have "dropWhile P (rev (dropWhile P (rev (x # b)))) = dropWhile P (rev (dropWhile P (rev b)))"
      by (simp only: rstrip_Cons) (auto simp: dropWhile_append dropWhile_rev_all)
    with True Cons show ?thesis by simp
  next
    case False
    then show ?thesis by (simp only: rstrip_Cons) (auto simp: dropWhile_append)
  qed
qed

lemma strip_rstrip: "strip (rev (dropWhile isspace (rev b))) = strip b"
  unfolding strip_def by (simp add: lstrip_rstrip_commute)

subsection \<open>Attempts\<close>

lemma attempt_from_Nil: "attempt_from service labels eid [] st = st"
  by (simp add: attempt_from_def)

lemma attempt_from_Cons:
  "attempt_from service labels (msg_id em) (name # names) st =
     attempt_from service labels (msg_id em) names (apply_and_record service labels em name st)"
  by (simp add: attempt_from_def apply_and_record_def split: prod.splits)

lemma attempt_from_append:
  "attempt_from service labels (msg_id (em :: email)) (xs @ ys) st =
     attempt_from service labels (msg_id em) ys (attempt_from service labels (msg_id em) xs st)"
proof (induction xs arbitrary: st)
  case Nil
  then show ?case by (simp add: attempt_from_Nil)
next
  case (Cons x xs)
  show ?case
    by (simp only: append_Cons attempt_from_Cons Cons.IH)
qed

lemma attempt_from_single:
  "apply_and_record service labels em name st = attempt_from service labels (msg_id em) [name] st"
  by (simp add: attempt_from_Cons attempt_from_Nil)

lemma attempt_from_start:
  "attempt_from service labels eid names ([], calls) = attempt_each service labels eid names calls"
  by (simp add: attempt_from_def split: prod.splits)

lemma apply_scoring_labels_attempt_each:
  "apply_scoring_labels service labels calls em score =
     attempt_each service labels (msg_id em) (decide score) calls"
proof -
  define A where "A = (if category score = JStr ''orders'' then [''EmailScorer/Orders-Shipping''] else [])"
  define B where "B = [if 8 \<le> importance_score score then ''EmailScorer/High-Importance''
        else if 5 \<le> importance_score score then ''EmailScorer/Medium-Importance''
        else ''EmailScorer/Low-Importance'']"
  define C where "C = (if 7 \<le> spam_score score then [''EmailScorer/Likely-Spam''] else [])"
  define D where "D = (if confidence score < 0.6 then [''EmailScorer/Needs-Review''] else [])"
  define st0 :: "string list \<times> modify_call list" where "st0 = ([], calls)"
  define st1 where "st1 = (if category score = JStr ''orders''
                 then apply_and_record service labels em ''EmailScorer/Orders-Shipping'' st0
                 else st0)"
  define st2 where "st2 = (if 8 \<le> importance_score score
                 then apply_and_record service labels em ''EmailScorer/High-Importance'' st1
                 else if 5 \<le> importance_score score
                 then apply_and_record service labels em ''EmailScorer/Medium-Importance'' st1
                 else apply_and_record service labels em ''EmailScorer/Low-Importance'' st1)"
  define st3 where "st3 = (if 7 \<le> spam_score score
                 then apply_and_record service labels em ''EmailScorer/Likely-Spam'' st2
                 else st2)"
  define st4 where "st4 = (if confidence score < 0.6
                 then apply_and_record service labels em ''EmailScorer/Needs-Review'' st3
                 else st3)"
  have code: "apply_scoring_labels service labels calls em score = st4"
    unfolding apply_scoring_labels_def Let_def st4_def st3_def st2_def st1_def st0_def ..
  have spec: "decide score = A @ B @ C @ D"
    unfolding decide_def A_def B_def C_def D_def ..
  have 1: "st1 = attempt_from service labels (msg_id em) A st0"
    unfolding st1_def A_def
    by (simp only: attempt_from_single attempt_from_Nil if_distrib [of "\<lambda>ns. attempt_from service labels (msg_id em) ns st0"])
  have 2: "st2 = attempt_from service labels (msg_id em) B st1"
    unfolding st2_def B_def
    by (simp only: attempt_from_single if_distrib [of "\<lambda>n. attempt_from service labels (msg_id em) [n] st1"])
  have 3: "st3 = attempt_from service labels (msg_id em) C st2"
    unfolding st3_def C_def
    by (simp only: attempt_from_single attempt_from_Nil if_distrib [of "\<lambda>ns. attempt_from service labels (msg_id em) ns st2"])
  have 4: "st4 = attempt_from service labels (msg_id em) D st3"
    unfolding st4_def D_def
    by (simp only: attempt_from_single attempt_from_Nil if_distrib [of "\<lambda>ns. attempt_from service labels (msg_id em) ns st3"])
  have "st4 = attempt_from service labels (msg_id em) (A @ B @ C @ D) st0"
    unfolding 4 3 2 1 by (simp only: attempt_from_append)
  then show ?thesis
    unfolding code spec st0_def by (simp only: attempt_from_start)
qed

lemma requests_for_Cons:
  "requests_for labels eid (n # ns) =
     (case labels n of None \<Rightarrow> [] | Some lid \<Rightarrow> [(eid, lid)]) @ requests_for labels eid ns"
  by (simp add: requests_for_def List.map_filter_simps split: option.splits)

lemma requests_for_Nil: "requests_for labels eid [] = []"
  by (simp add: requests_for_def List.map_filter_simps)

lemma snd_apply_label:
  "snd (apply_label service labels calls eid n) = calls @ requests_for labels eid [n]"
  by (simp add: apply_label_def requests_for_Cons requests_for_Nil split: option.splits)

lemma fst_apply_label:
  "fst (apply_label service labels calls eid n) = succeeded service labels calls eid (n # ns) 0"
  by (simp add: apply_label_def succeeded_def requests_for_Nil split: option.splits)

lemma attempt_each_requests:
  "snd (attempt_each service labels eid names calls) = calls @ requests_for labels eid names"
proof (induction names arbitrary: calls)
  case Nil
  then show ?case by (simp add: requests_for_Nil)
next
  case (Cons n ns)
  obtain ok calls' where a: "apply_label service labels calls eid n = (ok, calls')"
    by (cases "apply_label service labels calls eid n")
  then have c: "calls' = calls @ requests_for labels eid [n]"
    using snd_apply_label [of service labels calls eid n] by simp
  obtain applied calls'' where r: "attempt_each service labels eid ns calls' = (applied, calls'')"
    by (cases "attempt_each service labels eid ns calls'")
  with Cons.IH [of calls'] have "calls'' = calls' @ requests_for labels eid ns" by simp
  with a r c show ?case
    by (simp add: requests_for_Cons [of labels eid n ns] requests_for_Cons [of labels eid n "[]"]
        requests_for_Nil)
qed

lemma succeeded_Suc:
  "succeeded service labels calls eid (n # ns) (Suc i) =
     succeeded service labels (calls @ requests_for labels eid [n]) eid ns i"
  by (simp add: succeeded_def requests_for_Cons requests_for_Nil split: option.splits)

lemma attempt_each_applied:
  "fst (attempt_each service labels eid names calls) =
     map (\<lambda>i. names ! i) (filter (succeeded service labels calls eid names) [0..<length names])"
proof (induction names arbitrary: calls)
  case Nil
  then show ?case by simp
next
  case (Cons n ns)
  obtain ok calls' where a: "apply_label service labels calls eid n = (ok, calls')"
    by (cases "apply_label service labels calls eid n")
  then have c: "calls' = calls @ requests_for labels eid [n]"
    using snd_apply_label [of service labels calls eid n] by simp
  from a have ok: "ok = succeeded service labels calls eid (n # ns) 0"
    using fst_apply_label [of service labels calls eid n ns] by simp
  obtain applied calls'' where r: "attempt_each service labels eid ns calls' = (applied, calls'')"
    by (cases "attempt_each service labels eid ns calls'")
  with Cons.IH [of calls']
  have ih: "applied = map (\<lambda>i. ns ! i) (filter (succeeded service labels calls' eid ns) [0..<length ns])"
    by simp
  have upt: "[0..<length (n # ns)] = 0 # map Suc [0..<length ns]"
    by (simp add: upt_conv_Cons map_Suc_upt del: upt_Suc)
  have "map (\<lambda>i. (n # ns) ! i)
          (filter (succeeded service labels calls eid (n # ns)) (map Suc [0..<length ns]))
        = applied"
    unfolding ih c by (simp add: filter_map comp_def succeeded_Suc)
  then show ?case
    unfolding upt using a r ok by simp
qed

lemma attempt_each_all_ok:
  assumes "\<forall>calls call. service calls call"
    and "list_all (\<lambda>name. labels name \<noteq> None) names"
  shows "fst (attempt_each service labels eid names calls) = names"
  using assms(2)
proof (induction names arbitrary: calls)
  case Nil
  then show ?case by simp
next
  case (Cons n ns)
  then obtain lid where "labels n = Some lid" by auto
  with assms(1) have a: "apply_label service labels calls eid n = (True, calls @ [(eid, lid)])"
    by (simp add: apply_label_def)
  have ih: "fst (attempt_each service labels eid ns (calls @ [(eid, lid)])) = ns"
    using Cons.IH Cons.prems by simp
  show ?case
    using a ih by (cases "attempt_each service labels eid ns (calls @ [(eid, lid)])") simp
qed

subsection \<open>The ledger\<close>

lemma save_score_Inr:
  assumes "save_score db now em score labels_applied = Inr db'"
  shows "email_scores db' =
     filter (\<lambda>r. col_email_id r \<noteq> msg_id em) (email_scores db)
     @ [\<lparr>col_id = sequence db', col_email_id = msg_id em, col_sender = msg_sender em,
         col_subject = msg_subject em, col_date_processed = now,
         col_importance_score = importance_score score, col_spam_score = spam_score score,
         col_category = category score, col_reasoning = reasoning score,
         col_confidence = confidence score, col_model_version = ''v1.0'',
         col_labels_applied = join '','' labels_applied, col_user_feedback = None\<rparr>]"
  using assms
  by (auto simp: save_score_def Let_def split: option.splits)

lemma filter_same_id:
  "filter (\<lambda>r. col_email_id r = k) (filter (\<lambda>r. col_email_id r \<noteq> k) rs @ [row]) =
     (if col_email_id row = k then [row] else [])"
  by (induction rs) auto

lemma save_first:
  "save_score reviewed_db 2000000 example_email orders_score
       [''EmailScorer/Orders-Shipping'', ''EmailScorer/Medium-Importance''] = Inr saved_once"
  by (simp add: save_score_def reviewed_db_def example_email_def orders_score_def saved_once_def)

lemma save_second:
  "save_score saved_once 3000000 example_email doubtful_score
       [''EmailScorer/High-Importance'', ''EmailScorer/Needs-Review''] = Inr saved_twice"
  by (simp add: save_score_def saved_once_def example_email_def doubtful_score_def saved_twice_def)

subsection \<open>Thinking tags and fences\<close>

lemma first_occurrence_split:
  assumes "contains s sub" "sub \<noteq> []"
  shows "\<exists>p r. s = p @ sub @ r \<and> \<not> contains p sub"
proof -
  from assms(1) obtain k where k: "k \<le> length s" "prefix sub (drop k s)"
    "\<forall>j<k. \<not> prefix sub (drop j s)"
    using str_find_found [of s sub] by (auto simp: contains_def)
  from k(2) obtain r where r: "drop k s = sub @ r" by (auto simp: prefix_def)
  then have s: "s = take k s @ sub @ r" by (metis append_take_drop_id)
  have "\<not> contains (take k s) sub"
  proof
    assume "contains (take k s) sub"
    then obtain a b where ab: "take k s = a @ sub @ b" unfolding contains_iff by blast
    then have "length a + length sub + length b = length (take k s)" by simp
    with assms(2) k(1) have lt: "length a < k" by (cases sub) auto
    have "s = a @ sub @ b @ drop k s"
      using ab by (metis append_assoc append_take_drop_id)
    then have "drop (length a) s = sub @ b @ drop k s"
      by (metis append_eq_conv_conj)
    then have "prefix sub (drop (length a) s)" by simp
    with k(3) lt show False by blast
  qed
  with s show ?thesis by blast
qed

lemma think_close_unbordered:
  assumes "''</think>'' = q @ us" "q \<noteq> []" "us \<noteq> []"
  shows "\<not> prefix us (''</think>'' @ r)"
  using assms by (auto simp: Cons_eq_append_conv)

lemma think_close_first:
  assumes "\<not> contains p ''</think>''" "j < length p"
  shows "\<not> prefix ''</think>'' (drop j (p @ ''</think>'' @ r))"
proof
  assume "prefix ''</think>'' (drop j (p @ ''</think>'' @ r))"
  then have pre: "prefix ''</think>'' (drop j p @ ''</think>'' @ r)"
    using assms(2) by simp
  have q: "drop j p \<noteq> []" using assms(2) by simp
  from pre have "prefix ''</think>'' (drop j p)
      \<or> (\<exists>us. ''</think>'' = drop j p @ us \<and> prefix us (''</think>'' @ r))"
    by (simp only: prefix_append)
  then show False
  proof
    assume "prefix ''</think>'' (drop j p)"
    then obtain z where "drop j p = ''</think>'' @ z" by (auto simp: prefix_def)
    then have "p = take j p @ ''</think>'' @ z" by (metis append_take_drop_id)
    then have "contains p ''</think>''" unfolding contains_iff by blast
    with assms(1) show False by simp
  next
    assume "\<exists>us. ''</think>'' = drop j p @ us \<and> prefix us (''</think>'' @ r)"
    then obtain us where us: "''</think>'' = drop j p @ us" "prefix us (''</think>'' @ r)"
      by blast
    show False
    proof (cases "us = []")
      case True
      with us(1) have "p = take j p @ ''</think>'' @ []" by (metis append_take_drop_id append_Nil2)
      then have "contains p ''</think>''" unfolding contains_iff by blast
      with assms(1) show False by simp
    next
      case False
      with think_close_unbordered [OF us(1) q] us(2) show False by simp
    qed
  qed
qed

lemma contains_strip:
  assumes "contains s sub" "sub \<noteq> []" "\<not> isspace (hd sub)" "\<not> isspace (last sub)"
  shows "contains (strip s) sub"
proof -
  from assms(1) obtain a b where "s = a @ sub @ b" unfolding contains_iff by blast
  then have "strip s = dropWhile isspace a @ sub @ rev (dropWhile isspace (rev b))"
    using strip_sandwich [OF assms(2-4)] by simp
  then show ?thesis unfolding contains_iff by blast
qed

lemma not_contains_lstrip:
  assumes "\<not> contains p sub"
  shows "\<not> contains (dropWhile P p) sub"
proof
  assume "contains (dropWhile P p) sub"
  then obtain a b where "dropWhile P p = a @ sub @ b" unfolding contains_iff by blast
  then have "p = (takeWhile P p @ a) @ sub @ b"
    by (metis append_assoc takeWhile_dropWhile_id)
  then have "contains p sub" unfolding contains_iff by blast
  with assms show False by simp
qed

lemma slice_from_after:
  "slice_from (a @ sub @ b) (int (length a) + int (length sub)) = b"
proof -
  have "nat (int (length a) + int (length sub)) = length a + length sub"
    by simp
  then show ?thesis
    by (simp add: slice_from_def clamp_index_def)
qed

lemma remove_thinking_strip:
  assumes "contains (p @ ''</think>'' @ r) ''<think>''" "\<not> contains p ''</think>''"
  shows "remove_thinking (strip (p @ ''</think>'' @ r)) = strip r"
    and "strip (p @ ''</think>'' @ r) \<noteq> []"
proof -
  define lp where "lp = dropWhile isspace p"
  define rr where "rr = rev (dropWhile isspace (rev r))"
  have ns: "''</think>'' \<noteq> []" "\<not> isspace (hd ''</think>'')" "\<not> isspace (last ''</think>'')"
    by (simp_all add: isspace_def)
  have s: "strip (p @ ''</think>'' @ r) = lp @ ''</think>'' @ rr"
    unfolding lp_def rr_def using strip_sandwich [OF ns] by simp
  show "strip (p @ ''</think>'' @ r) \<noteq> []"
    unfolding s by simp
  have o: "contains (lp @ ''</think>'' @ rr) ''<think>''"
    using contains_strip [OF assms(1)] unfolding s by (simp add: isspace_def)
  have c: "contains (lp @ ''</think>'' @ rr) ''</think>''"
    unfolding contains_iff by blast
  have nl: "\<not> contains lp ''</think>''"
    unfolding lp_def using assms(2) by (rule not_contains_lstrip)
  have "\<forall>j<length lp. \<not> prefix ''</think>'' (drop j (lp @ ''</think>'' @ rr))"
    using think_close_first [OF nl] by blast
  then have f: "str_find (lp @ ''</think>'' @ rr) ''</think>'' = int (length lp)"
    by (intro str_find_first) simp_all
  have "int (length lp) + 8 = int (length lp) + int (length ''</think>'')"
    by simp
  then have sl: "slice_from (lp @ ''</think>'' @ rr) (int (length lp) + 8) = rr"
    by (simp only: slice_from_after)
  have "remove_thinking (lp @ ''</think>'' @ rr) = strip rr"
    unfolding remove_thinking_def Let_def by (simp only: o c f sl simp_thms if_True)
  then show "remove_thinking (strip (p @ ''</think>'' @ r)) = strip r"
    unfolding s rr_def by (simp add: strip_rstrip)
qed

lemma slice_middle:
  "slice (a @ b @ c) (int (length a)) (int (length a + length b)) = b"
  by (simp add: slice_def clamp_index_def Let_def)

lemma remove_fences_tagged:
  assumes "json_text = a @ ''```json'' @ b @ ''```'' @ c"
    and "str_find json_text ''```json'' = int (length a)"
    and "str_rfind json_text ''```'' = int (length a + 7 + length b)"
  shows "remove_fences json_text = (if b = [] then json_text else strip b)"
proof -
  have c: "contains json_text ''```json''"
    using assms(2) by (simp add: contains_def)
  have s: "slice json_text (int (length a) + 7) (int (length a + 7 + length b)) = b"
  proof -
    have "int (length a) + 7 = int (length (a @ ''```json''))"
      by simp
    moreover have "int (length a + 7 + length b) = int (length (a @ ''```json'') + length b)"
      by simp
    moreover have "json_text = (a @ ''```json'') @ b @ (''```'' @ c)"
      using assms(1) by simp
    ultimately show ?thesis
      by (simp only: slice_middle)
  qed
  show ?thesis
    unfolding remove_fences_def Let_def
    by (simp only: c if_True assms(2,3) s) auto
qed

lemma remove_fences_untagged:
  assumes "json_text = a @ ''```'' @ b @ ''```'' @ c"
    and "\<not> contains json_text ''```json''"
    and "str_find json_text ''```'' = int (length a)"
    and "str_rfind json_text ''```'' = int (length a + 3 + length b)"
  shows "remove_fences json_text = (if b = [] then json_text else strip b)"
proof -
  have c: "contains json_text ''```''"
    using assms(3) by (simp add: contains_def)
  have s: "slice json_text (int (length a) + 3) (int (length a + 3 + length b)) = b"
  proof -
    have "int (length a) + 3 = int (length (a @ ''```''))"
      by simp
    moreover have "int (length a + 3 + length b) = int (length (a @ ''```'') + length b)"
      by simp
    moreover have "json_text = (a @ ''```'') @ b @ (''```'' @ c)"
      using assms(1) by simp
    ultimately show ?thesis
      by (simp only: slice_middle)
  qed
  show ?thesis
    unfolding remove_fences_def Let_def
    by (simp only: assms(2) c if_True if_False assms(3,4) s) auto
qed

subsection \<open>Building the score\<close>

lemma get_float_obj:
  "get_float lib (JObj d) key dflt =
     (case map_of d key of None \<Rightarrow> py_float lib dflt | Some v \<Rightarrow> py_float lib v)"
  by (simp add: get_float_def dict_get_def split: option.splits)

lemma coercible_get:
  assumes "coercible lib d key" "py_float lib dflt = Inr x0"
  shows "\<exists>x. get_float lib (JObj d) key dflt = Inr x
     \<and> (case map_of d key of None \<Rightarrow> x = x0 | Some v \<Rightarrow> py_float lib v = Inr x)"
  using assms by (auto simp: get_float_obj coercible_def split: option.splits sum.splits)

lemma not_coercible_get:
  assumes "\<not> coercible lib d key"
  shows "\<exists>e. get_float lib (JObj d) key dflt = Inl e"
  using assms by (auto simp: get_float_obj coercible_def split: option.splits sum.splits)

lemma dict_get_obj:
  "dict_get (JObj d) key dflt = Inr (case map_of d key of None \<Rightarrow> dflt | Some v \<Rightarrow> v)"
  by (simp add: dict_get_def)

lemma build_score_coercible:
  assumes "coercible lib d ''importance_score''" "coercible lib d ''spam_score''"
    "coercible lib d ''confidence''"
  shows "\<exists>s. build_score lib (JObj d) = Inr s
     \<and> (case map_of d ''importance_score'' of
           None \<Rightarrow> importance_score s = 5
         | Some v \<Rightarrow> py_float lib v = Inr (importance_score s))
     \<and> (case map_of d ''spam_score'' of
           None \<Rightarrow> spam_score s = 0
         | Some v \<Rightarrow> py_float lib v = Inr (spam_score s))
     \<and> category s = (case map_of d ''category'' of None \<Rightarrow> JStr ''unknown'' | Some v \<Rightarrow> v)
     \<and> reasoning s =
         (case map_of d ''reasoning'' of None \<Rightarrow> JStr ''No reasoning provided'' | Some v \<Rightarrow> v)
     \<and> (case map_of d ''confidence'' of
           None \<Rightarrow> confidence s = 1 / 2
         | Some v \<Rightarrow> py_float lib v = Inr (confidence s))"
proof -
  have d5: "py_float lib (JInt 5) = Inr 5" and d0: "py_float lib (JInt 0) = Inr 0"
    and dh: "py_float lib (JFloat 0.5) = Inr (1 / 2)"
    by simp_all
  from coercible_get [OF assms(1) d5] obtain imp where
    imp: "get_float lib (JObj d) ''importance_score'' (JInt 5) = Inr imp"
      "case map_of d ''importance_score'' of None \<Rightarrow> imp = 5 | Some v \<Rightarrow> py_float lib v = Inr imp"
    by blast
  from coercible_get [OF assms(2) d0] obtain sp where
    sp: "get_float lib (JObj d) ''spam_score'' (JInt 0) = Inr sp"
      "case map_of d ''spam_score'' of None \<Rightarrow> sp = 0 | Some v \<Rightarrow> py_float lib v = Inr sp"
    by blast
  from coercible_get [OF assms(3) dh] obtain cf where
    cf: "get_float lib (JObj d) ''confidence'' (JFloat 0.5) = Inr cf"
      "case map_of d ''confidence'' of None \<Rightarrow> cf = 1 / 2 | Some v \<Rightarrow> py_float lib v = Inr cf"
    by blast
  have "build_score lib (JObj d) =
      Inr \<lparr>importance_score = imp, spam_score = sp,
           category = (case map_of d ''category'' of None \<Rightarrow> JStr ''unknown'' | Some v \<Rightarrow> v),
           reasoning = (case map_of d ''reasoning'' of
                          None \<Rightarrow> JStr ''No reasoning provided'' | Some v \<Rightarrow> v),
           confidence = cf\<rparr>"
    unfolding build_score_def by (simp only: imp(1) sp(1) cf(1) dict_get_obj sum.case)
  with imp(2) sp(2) cf(2) show ?thesis by (simp cong: option.case_cong)
qed

lemma build_score_not_coercible:
  assumes "\<not> (coercible lib d ''importance_score'' \<and> coercible lib d ''spam_score''
            \<and> coercible lib d ''confidence'')"
  shows "\<exists>e. build_score lib (JObj d) = Inl e"
proof (cases "coercible lib d ''importance_score''")
  case False
  from not_coercible_get [OF this] obtain e where
    "get_float lib (JObj d) ''importance_score'' (JInt 5) = Inl e" by blast
  then show ?thesis unfolding build_score_def by (simp only: sum.case) blast
next
  case c1: True
  have d5: "py_float lib (JInt 5) = Inr 5" by simp
  from coercible_get [OF c1 d5] obtain imp where
    imp: "get_float lib (JObj d) ''importance_score'' (JInt 5) = Inr imp" by blast
  show ?thesis
  proof (cases "coercible lib d ''spam_score''")
    case False
    from not_coercible_get [OF this] obtain e where
      "get_float lib (JObj d) ''spam_score'' (JInt 0) = Inl e" by blast
    then show ?thesis unfolding build_score_def by (simp only: imp sum.case) blast
  next
    case c2: True
    have d0: "py_float lib (JInt 0) = Inr 0" by simp
    from coercible_get [OF c2 d0] obtain sp where
      sp: "get_float lib (JObj d) ''spam_score'' (JInt 0) = Inr sp" by blast
    from assms c1 c2 have "\<not> coercible lib d ''confidence''" by simp
    from not_coercible_get [OF this] obtain e where
      "get_float lib (JObj d) ''confidence'' (JFloat 0.5) = Inl e" by blast
    then show ?thesis
      unfolding build_score_def by (simp only: imp sp dict_get_obj sum.case) blast
  qed
qed

lemma finance_decoded:
  "decode_response basic_lib finance_reply =
     Inr (JObj [(''importance_score'', JInt 9), (''spam_score'', JInt 1),
                (''category'', JStr ''finance''), (''confidence'', JFloat 0.92)])"
  unfolding finance_reply_def by code_simp

lemma null_decoded:
  "decode_response basic_lib ''{\"importance_score\": null}'' =
     Inr (JObj [(''importance_score'', JNull)])"
  by code_simp

section \<open>The claims\<close>

text \<open>
  Claim C1. \<open>score_email\<close> is a total function into \<open>EmailScore\<close>: every exception
  of the body of its \<open>try\<close> statement is a value \<open>Inl e\<close> that the handler turns into a
  score. Whenever the completion call raises \<open>e\<close>, or the response has no content to
  strip (\<open>e\<close> is the error of the access), or the interpretation of the content fails
  with \<open>e\<close>, the score returned is exactly importance 5.0, spam 0.0, category
  \<open>unknown\<close>, confidence 0.1, and its reasoning is \<open>Error during scoring:\<close> followed
  by \<open>str(e)\<close>. This holds for every library, every client and every message.
\<close>

theorem score_email_fallback:
  assumes "client (completion_request model_name sender subject body email_date) = Inl e
     \<or> (\<exists>response. client (completion_request model_name sender subject body email_date) = Inr response
            \<and> response_text response = Inl e)
     \<or> (\<exists>response result_text.
            client (completion_request model_name sender subject body email_date) = Inr response
            \<and> response_text response = Inr result_text
            \<and> parse_response lib result_text = Inl e)"
  shows "score_email lib client model_name sender subject body email_date =
     \<lparr>importance_score = 5, spam_score = 0, category = JStr ''unknown'',
      reasoning = JStr (''Error during scoring: '' @ exc_str e), confidence = 1 / 10\<rparr>"
proof -
  have "score_email_try lib client model_name sender subject body email_date = Inl e"
    using assms by (auto simp: score_email_try_def)
  then show ?thesis
    by (simp add: score_email_def or_default_def)
qed

text \<open>An instance: a client that times out, and a reply without any JSON object.\<close>

theorem score_email_fallback_witness:
  "score_email basic_lib (failing (PyExc ''APITimeoutError'' ''Request timed out.''))
       ''qwen3-32b'' ''a@example.com'' ''Hello'' ''Body'' ''Mon, 1 Jan 2024'' =
     \<lparr>importance_score = 5, spam_score = 0, category = JStr ''unknown'',
      reasoning = JStr ''Error during scoring: Request timed out.'', confidence = 1 / 10\<rparr>
   \<and> score_email basic_lib (reply ''Sorry, I cannot classify this.'')
       ''qwen3-32b'' ''a@example.com'' ''Hello'' ''Body'' ''Mon, 1 Jan 2024'' =
     \<lparr>importance_score = 5, spam_score = 0, category = JStr ''unknown'',
      reasoning = JStr ''Error during scoring: No JSON found in model response'',
      confidence = 1 / 10\<rparr>"
proof
  have "failing (PyExc ''APITimeoutError'' ''Request timed out.'')
      (completion_request ''qwen3-32b'' ''a@example.com'' ''Hello'' ''Body'' ''Mon, 1 Jan 2024'')
      = Inl (PyExc ''APITimeoutError'' ''Request timed out.'')"
    by (simp add: failing_def)
  then show "score_email basic_lib (failing (PyExc ''APITimeoutError'' ''Request timed out.''))
       ''qwen3-32b'' ''a@example.com'' ''Hello'' ''Body'' ''Mon, 1 Jan 2024'' =
     \<lparr>importance_score = 5, spam_score = 0, category = JStr ''unknown'',
      reasoning = JStr ''Error during scoring: Request timed out.'', confidence = 1 / 10\<rparr>"
    using score_email_fallback [of "failing (PyExc ''APITimeoutError'' ''Request timed out.'')"
        "''qwen3-32b''" "''a@example.com''" "''Hello''" "''Body''" "''Mon, 1 Jan 2024''"
        "PyExc ''APITimeoutError'' ''Request timed out.''" basic_lib]
    by simp
next
  have r: "response_text [Some ''Sorry, I cannot classify this.''] = Inr ''Sorry, I cannot classify this.''"
    by code_simp
  have p: "parse_response basic_lib ''Sorry, I cannot classify this.''
      = Inl (PyExc ''ValueError'' ''No JSON found in model response'')"
    by code_simp
  show "score_email basic_lib (reply ''Sorry, I cannot classify this.'')
       ''qwen3-32b'' ''a@example.com'' ''Hello'' ''Body'' ''Mon, 1 Jan 2024'' =
     \<lparr>importance_score = 5, spam_score = 0, category = JStr ''unknown'',
      reasoning = JStr ''Error during scoring: No JSON found in model response'',
      confidence = 1 / 10\<rparr>"
    using score_email_fallback [of "reply ''Sorry, I cannot classify this.''"
        "''qwen3-32b''" "''a@example.com''" "''Hello''" "''Body''" "''Mon, 1 Jan 2024''"
        "PyExc ''ValueError'' ''No JSON found in model response''" basic_lib] r p
    by (simp add: reply_def)
qed

text \<open>
  Claim C2. When the label table resolves the six scoring labels and every request to
  the mail service succeeds, \<open>_apply_scoring_labels\<close> returns, in this order: the
  orders label if and only if the category is \<open>orders\<close>; exactly one importance label
  (high from 8, medium from 5, low below 5); the spam label if and only if the spam score
  is at least 7; the review label if and only if the confidence is below 0.6. For the
  category \<open>orders\<close> with importance 6.5, spam 0 and confidence 0.8 the result is the
  orders label followed by the medium-importance label.
\<close>

theorem label_decision_rules:
  assumes "\<forall>calls call. service calls call"
    and "list_all (\<lambda>name. labels name \<noteq> None)
           [''EmailScorer/Orders-Shipping'', ''EmailScorer/High-Importance'',
            ''EmailScorer/Medium-Importance'', ''EmailScorer/Low-Importance'',
            ''EmailScorer/Likely-Spam'', ''EmailScorer/Needs-Review'']"
  shows "fst (apply_scoring_labels service labels calls em score) =
     (if category score = JStr ''orders'' then [''EmailScorer/Orders-Shipping''] else [])
     @ [if 8 \<le> importance_score score then ''EmailScorer/High-Importance''
        else if 5 \<le> importance_score score then ''EmailScorer/Medium-Importance''
        else ''EmailScorer/Low-Importance'']
     @ (if 7 \<le> spam_score score then [''EmailScorer/Likely-Spam''] else [])
     @ (if confidence score < 0.6 then [''EmailScorer/Needs-Review''] else [])"
proof -
  have known: "list_all (\<lambda>name. labels name \<noteq> None) (decide score)"
    using assms(2) unfolding decide_def list_all_iff by auto
  have "fst (apply_scoring_labels service labels calls em score) = decide score"
    unfolding apply_scoring_labels_attempt_each
    using attempt_each_all_ok [OF assms(1) known] .
  then show ?thesis
    unfolding decide_def .
qed

text \<open>An instance: the scenario of the specification.\<close>

theorem label_decision_rules_witness:
  "fst (apply_scoring_labels accepting all_labels [] example_email orders_score) =
     [''EmailScorer/Orders-Shipping'', ''EmailScorer/Medium-Importance'']"
proof -
  have a: "\<forall>calls call. accepting calls call"
    by (simp add: accepting_def)
  have k: "list_all (\<lambda>name. all_labels name \<noteq> None)
           [''EmailScorer/Orders-Shipping'', ''EmailScorer/High-Importance'',
            ''EmailScorer/Medium-Importance'', ''EmailScorer/Low-Importance'',
            ''EmailScorer/Likely-Spam'', ''EmailScorer/Needs-Review'']"
    by (simp add: all_labels_def)
  show ?thesis
    using label_decision_rules [OF a k, of "[]" example_email orders_score]
    by (simp add: orders_score_def)
qed

text \<open>
  Claim C3, as the code has it. When the text holds a fence tagged as JSON, the first at
  \<open>a\<close>, and the last fence marker of the text follows the content \<open>b\<close> after that
  tag, \<open>remove_fences\<close> returns \<open>b\<close> stripped: the content between the first tagged
  fence and the last fence marker, not the next one. The same holds for the first and the
  last fence marker of a text that has no tagged fence. The text is left as it is when
  \<open>b\<close> is empty, and when no fence marker follows the tag. (\<open>str_find\<close> is the
  first and \<open>str_rfind\<close> the last position of an occurrence: lemmas
  \<open>str_find_first\<close> and \<open>str_rfind_last\<close>.)
\<close>

theorem remove_fences_first_to_last:
  "(json_text = a @ ''```json'' @ b @ ''```'' @ c
      \<and> str_find json_text ''```json'' = int (length a)
      \<and> str_rfind json_text ''```'' = int (length a + 7 + length b)
     \<longrightarrow> remove_fences json_text = (if b = [] then json_text else strip b))
   \<and> (json_text = a @ ''```'' @ b @ ''```'' @ c
      \<and> \<not> contains json_text ''```json''
      \<and> str_find json_text ''```'' = int (length a)
      \<and> str_rfind json_text ''```'' = int (length a + 3 + length b)
     \<longrightarrow> remove_fences json_text = (if b = [] then json_text else strip b))
   \<and> (contains json_text ''```json''
      \<and> str_rfind json_text ''```'' \<le> str_find json_text ''```json'' + 7
     \<longrightarrow> remove_fences json_text = json_text)"
proof (intro conjI impI)
  assume "json_text = a @ ''```json'' @ b @ ''```'' @ c
      \<and> str_find json_text ''```json'' = int (length a)
      \<and> str_rfind json_text ''```'' = int (length a + 7 + length b)"
  then show "remove_fences json_text = (if b = [] then json_text else strip b)"
    using remove_fences_tagged [of json_text a b c] by blast
next
  assume "json_text = a @ ''```'' @ b @ ''```'' @ c
      \<and> \<not> contains json_text ''```json''
      \<and> str_find json_text ''```'' = int (length a)
      \<and> str_rfind json_text ''```'' = int (length a + 3 + length b)"
  then show "remove_fences json_text = (if b = [] then json_text else strip b)"
    using remove_fences_untagged [of json_text a b c] by blast
next
  assume "contains json_text ''```json''
      \<and> str_rfind json_text ''```'' \<le> str_find json_text ''```json'' + 7"
  then show "remove_fences json_text = json_text"
    by (simp add: remove_fences_def Let_def)
qed

text \<open>
  An instance: a tagged fence followed by two more fence markers, a text with an untagged
  block, and a tagged fence that is never closed.
\<close>

theorem remove_fences_first_to_last_witness:
  "remove_fences two_fences = ''see below\<newline>```\<newline>{\"importance_score\": 9}''
   \<and> remove_fences untagged_reply = ''{\"spam_score\": 3}''
   \<and> remove_fences ''```json {\"spam_score\": 3}'' = ''```json {\"spam_score\": 3}''"
proof (intro conjI)
  have d: "two_fences = [] @ ''```json''
      @ ''\<newline>see below\<newline>```\<newline>{\"importance_score\": 9}\<newline>'' @ ''```'' @ []"
    by (simp add: two_fences_def)
  have f: "str_find two_fences ''```json'' = int (length ([] :: string))"
    unfolding two_fences_def by code_simp
  have r: "str_rfind two_fences ''```'' = int (length ([] :: string) + 7
      + length ''\<newline>see below\<newline>```\<newline>{\"importance_score\": 9}\<newline>'')"
    unfolding two_fences_def by code_simp
  have s: "strip ''\<newline>see below\<newline>```\<newline>{\"importance_score\": 9}\<newline>''
      = ''see below\<newline>```\<newline>{\"importance_score\": 9}''"
    by code_simp
  show "remove_fences two_fences = ''see below\<newline>```\<newline>{\"importance_score\": 9}''"
    using remove_fences_first_to_last [of two_fences "[]"
        "''\<newline>see below\<newline>```\<newline>{\"importance_score\": 9}\<newline>''" "[]"] d f r s
    by simp
next
  have d: "untagged_reply = ''Result: '' @ ''```'' @ ''{\"spam_score\": 3}'' @ ''```'' @ '' done''"
    by (simp add: untagged_reply_def)
  have n: "\<not> contains untagged_reply ''```json''"
    unfolding untagged_reply_def by code_simp
  have f: "str_find untagged_reply ''```'' = int (length ''Result: '')"
    unfolding untagged_reply_def by code_simp
  have r: "str_rfind untagged_reply ''```'' =
      int (length ''Result: '' + 3 + length ''{\"spam_score\": 3}'')"
    unfolding untagged_reply_def by code_simp
  have s: "strip ''{\"spam_score\": 3}'' = ''{\"spam_score\": 3}''"
    by code_simp
  show "remove_fences untagged_reply = ''{\"spam_score\": 3}''"
    using remove_fences_first_to_last [of untagged_reply "''Result: ''" "''{\"spam_score\": 3}''"
        "'' done''"] d n f r s
    by simp
next
  have c: "contains ''```json {\"spam_score\": 3}'' ''```json''"
    by code_simp
  have l: "str_rfind ''```json {\"spam_score\": 3}'' ''```''
      \<le> str_find ''```json {\"spam_score\": 3}'' ''```json'' + 7"
    by code_simp
  show "remove_fences ''```json {\"spam_score\": 3}'' = ''```json {\"spam_score\": 3}''"
    using remove_fences_first_to_last [of "''```json {\"spam_score\": 3}''"] c l
    by blast
qed

text \<open>
  The claim as stated fails: on \<open>two_fences\<close> the content up to the next fence marker is
  \<open>see below\<close>, which holds no JSON object, while \<open>remove_fences\<close> keeps the text up to
  the last fence marker, in which the pattern finds an object, and \<open>score_email\<close>
  returns its importance 9.
\<close>

theorem next_fence_counterexample:
  "next_fence_content two_fences = ''\<newline>see below\<newline>''
   \<and> remove_fences two_fences = ''see below\<newline>```\<newline>{\"importance_score\": 9}''
   \<and> remove_fences two_fences \<noteq> strip (next_fence_content two_fences)
   \<and> findall_json (strip (next_fence_content two_fences)) = []
   \<and> findall_json (remove_fences two_fences) = [''{\"importance_score\": 9}'']
   \<and> score_email basic_lib (reply two_fences) ''qwen3-32b'' ''a@example.com'' ''Hello'' ''Body''
         ''Mon, 1 Jan 2024'' =
       \<lparr>importance_score = 9, spam_score = 0, category = JStr ''unknown'',
        reasoning = JStr ''No reasoning provided'', confidence = 1 / 2\<rparr>"
  unfolding two_fences_def by code_simp

text \<open>
  Claim C4, as the code has it. When the response is decoded to an object: if each of
  \<open>importance_score\<close>, \<open>spam_score\<close> and \<open>confidence\<close> is absent or holds a value that
  \<open>float\<close> accepts, the score holds the default (5, 0, \<open>unknown\<close>,
  \<open>No reasoning provided\<close>, 0.5) for each absent key and the value, converted by
  \<open>float\<close>, for each present key; if one of the three holds a value that \<open>float\<close>
  rejects, the whole response fails and the default score of the handler is returned.
  \<open>float\<close> rejects \<open>None\<close>, a list, an object and an integer beyond the range of a
  \<open>float\<close>; it passes a string to the library's parser; and it accepts a boolean as
  1.0 or 0.0.
\<close>

theorem absent_keys_default_uncoercible_fail:
  assumes "client (completion_request model_name sender subject body email_date) = Inr response"
    and "response_text response = Inr result_text"
    and "decode_response lib result_text = Inr (JObj d)"
  shows
    "(coercible lib d ''importance_score'' \<and> coercible lib d ''spam_score''
        \<and> coercible lib d ''confidence'' \<longrightarrow>
       (case map_of d ''importance_score'' of
          None \<Rightarrow>
            importance_score (score_email lib client model_name sender subject body email_date) = 5
        | Some v \<Rightarrow>
            py_float lib v =
              Inr (importance_score (score_email lib client model_name sender subject body email_date)))
     \<and> (case map_of d ''spam_score'' of
          None \<Rightarrow> spam_score (score_email lib client model_name sender subject body email_date) = 0
        | Some v \<Rightarrow>
            py_float lib v =
              Inr (spam_score (score_email lib client model_name sender subject body email_date)))
     \<and> category (score_email lib client model_name sender subject body email_date) =
         (case map_of d ''category'' of None \<Rightarrow> JStr ''unknown'' | Some v \<Rightarrow> v)
     \<and> reasoning (score_email lib client model_name sender subject body email_date) =
         (case map_of d ''reasoning'' of None \<Rightarrow> JStr ''No reasoning provided'' | Some v \<Rightarrow> v)
     \<and> (case map_of d ''confidence'' of
          None \<Rightarrow>
            confidence (score_email lib client model_name sender subject body email_date) = 1 / 2
        | Some v \<Rightarrow>
            py_float lib v =
              Inr (confidence (score_email lib client model_name sender subject body email_date))))
   \<and> (\<not> (coercible lib d ''importance_score'' \<and> coercible lib d ''spam_score''
            \<and> coercible lib d ''confidence'') \<longrightarrow>
       (\<exists>e. score_email lib client model_name sender subject body email_date =
          \<lparr>importance_score = 5, spam_score = 0, category = JStr ''unknown'',
           reasoning = JStr (''Error during scoring: '' @ exc_str e), confidence = 1 / 10\<rparr>))
   \<and> (\<exists>e. py_float lib JNull = Inl e)
   \<and> (\<exists>e. py_float lib (JArr xs) = Inl e)
   \<and> (\<exists>e. py_float lib (JObj m) = Inl e)
   \<and> (\<exists>e. py_float lib (JInt (2 ^ 1024)) = Inl e)
   \<and> py_float lib (JStr str) = float_of_str lib str
   \<and> py_float lib (JBool b) = Inr (if b then 1 else 0)"
proof -
  have t: "score_email_try lib client model_name sender subject body email_date =
      build_score lib (JObj d)"
    using assms by (simp add: score_email_try_def parse_response_def)
  have s: "score_email lib client model_name sender subject body email_date =
      or_default (build_score lib (JObj d))"
    by (simp add: score_email_def t)
  have A: "coercible lib d ''importance_score'' \<and> coercible lib d ''spam_score''
        \<and> coercible lib d ''confidence'' \<longrightarrow>
       (case map_of d ''importance_score'' of
          None \<Rightarrow>
            importance_score (score_email lib client model_name sender subject body email_date) = 5
        | Some v \<Rightarrow>
            py_float lib v =
              Inr (importance_score (score_email lib client model_name sender subject body email_date)))
     \<and> (case map_of d ''spam_score'' of
          None \<Rightarrow> spam_score (score_email lib client model_name sender subject body email_date) = 0
        | Some v \<Rightarrow>
            py_float lib v =
              Inr (spam_score (score_email lib client model_name sender subject body email_date)))
     \<and> category (score_email lib client model_name sender subject body email_date) =
         (case map_of d ''category'' of None \<Rightarrow> JStr ''unknown'' | Some v \<Rightarrow> v)
     \<and> reasoning (score_email lib client model_name sender subject body email_date) =
         (case map_of d ''reasoning'' of None \<Rightarrow> JStr ''No reasoning provided'' | Some v \<Rightarrow> v)
     \<and> (case map_of d ''confidence'' of
          None \<Rightarrow>
            confidence (score_email lib client model_name sender subject body email_date) = 1 / 2
        | Some v \<Rightarrow>
            py_float lib v =
              Inr (confidence (score_email lib client model_name sender subject body email_date)))"
  proof
    assume "coercible lib d ''importance_score'' \<and> coercible lib d ''spam_score''
        \<and> coercible lib d ''confidence''"
    then obtain sc where sc: "build_score lib (JObj d) = Inr sc"
      "case map_of d ''importance_score'' of
           None \<Rightarrow> importance_score sc = 5
         | Some v \<Rightarrow> py_float lib v = Inr (importance_score sc)"
      "case map_of d ''spam_score'' of
           None \<Rightarrow> spam_score sc = 0
         | Some v \<Rightarrow> py_float lib v = Inr (spam_score sc)"
      "category sc = (case map_of d ''category'' of None \<Rightarrow> JStr ''unknown'' | Some v \<Rightarrow> v)"
      "reasoning sc =
         (case map_of d ''reasoning'' of None \<Rightarrow> JStr ''No reasoning provided'' | Some v \<Rightarrow> v)"
      "case map_of d ''confidence'' of
           None \<Rightarrow> confidence sc = 1 / 2
         | Some v \<Rightarrow> py_float lib v = Inr (confidence sc)"
      using build_score_coercible [of lib d] by blast
    have eq: "score_email lib client model_name sender subject body email_date = sc"
      unfolding s sc(1) by (simp add: or_default_def)
    show "(case map_of d ''importance_score'' of
          None \<Rightarrow>
            importance_score (score_email lib client model_name sender subject body email_date) = 5
        | Some v \<Rightarrow>
            py_float lib v =
              Inr (importance_score (score_email lib client model_name sender subject body email_date)))
     \<and> (case map_of d ''spam_score'' of
          None \<Rightarrow> spam_score (score_email lib client model_name sender subject body email_date) = 0
        | Some v \<Rightarrow>
            py_float lib v =
              Inr (spam_score (score_email lib client model_name sender subject body email_date)))
     \<and> category (score_email lib client model_name sender subject body email_date) =
         (case map_of d ''category'' of None \<Rightarrow> JStr ''unknown'' | Some v \<Rightarrow> v)
     \<and> reasoning (score_email lib client model_name sender subject body email_date) =
         (case map_of d ''reasoning'' of None \<Rightarrow> JStr ''No reasoning provided'' | Some v \<Rightarrow> v)
     \<and> (case map_of d ''confidence'' of
          None \<Rightarrow>
            confidence (score_email lib client model_name sender subject body email_date) = 1 / 2
        | Some v \<Rightarrow>
            py_float lib v =
              Inr (confidence (score_email lib client model_name sender subject body email_date)))"
      unfolding eq using sc(2-6) by (intro conjI)
  qed
  have B: "\<not> (coercible lib d ''importance_score'' \<and> coercible lib d ''spam_score''
            \<and> coercible lib d ''confidence'') \<longrightarrow>
       (\<exists>e. score_email lib client model_name sender subject body email_date =
          \<lparr>importance_score = 5, spam_score = 0, category = JStr ''unknown'',
           reasoning = JStr (''Error during scoring: '' @ exc_str e), confidence = 1 / 10\<rparr>)"
  proof
    assume "\<not> (coercible lib d ''importance_score'' \<and> coercible lib d ''spam_score''
            \<and> coercible lib d ''confidence'')"
    from build_score_not_coercible [OF this] obtain e where "build_score lib (JObj d) = Inl e"
      by blast
    then have "score_email lib client model_name sender subject body email_date =
          \<lparr>importance_score = 5, spam_score = 0, category = JStr ''unknown'',
           reasoning = JStr (''Error during scoring: '' @ exc_str e), confidence = 1 / 10\<rparr>"
      unfolding s by (simp add: or_default_def)
    then show "\<exists>e. score_email lib client model_name sender subject body email_date =
          \<lparr>importance_score = 5, spam_score = 0, category = JStr ''unknown'',
           reasoning = JStr (''Error during scoring: '' @ exc_str e), confidence = 1 / 10\<rparr>"
      by blast
  qed
  have C: "(\<exists>e. py_float lib JNull = Inl e) \<and> (\<exists>e. py_float lib (JArr xs) = Inl e)
     \<and> (\<exists>e. py_float lib (JObj m) = Inl e) \<and> (\<exists>e. py_float lib (JInt (2 ^ 1024)) = Inl e)
     \<and> py_float lib (JStr str) = float_of_str lib str
     \<and> py_float lib (JBool b) = Inr (if b then 1 else 0)"
    by simp
  from A B C show ?thesis by blast
qed

text \<open>
  An instance: an object without a \<open>reasoning\<close> key, and an object whose
  \<open>importance_score\<close> is \<open>null\<close>.
\<close>

theorem absent_keys_default_uncoercible_fail_witness:
  "score_email basic_lib (reply finance_reply) ''qwen3-32b'' ''a@example.com'' ''Hello'' ''Body''
       ''Mon, 1 Jan 2024'' =
     \<lparr>importance_score = 9, spam_score = 1, category = JStr ''finance'',
      reasoning = JStr ''No reasoning provided'', confidence = 0.92\<rparr>
   \<and> (\<exists>e. score_email basic_lib (reply ''{\"importance_score\": null}'') ''qwen3-32b''
         ''a@example.com'' ''Hello'' ''Body'' ''Mon, 1 Jan 2024'' =
       \<lparr>importance_score = 5, spam_score = 0, category = JStr ''unknown'',
        reasoning = JStr (''Error during scoring: '' @ exc_str e), confidence = 1 / 10\<rparr>)"
proof
  have c: "reply finance_reply
      (completion_request ''qwen3-32b'' ''a@example.com'' ''Hello'' ''Body'' ''Mon, 1 Jan 2024'')
      = Inr [Some finance_reply]"
    by (simp add: reply_def)
  have t: "response_text [Some finance_reply] = Inr finance_reply"
    unfolding finance_reply_def by code_simp
  have k: "coercible basic_lib [(''importance_score'', JInt 9), (''spam_score'', JInt 1),
                (''category'', JStr ''finance''), (''confidence'', JFloat 0.92)] ''importance_score''
     \<and> coercible basic_lib [(''importance_score'', JInt 9), (''spam_score'', JInt 1),
                (''category'', JStr ''finance''), (''confidence'', JFloat 0.92)] ''spam_score''
     \<and> coercible basic_lib [(''importance_score'', JInt 9), (''spam_score'', JInt 1),
                (''category'', JStr ''finance''), (''confidence'', JFloat 0.92)] ''confidence''"
    by (simp add: coercible_def)
  show "score_email basic_lib (reply finance_reply) ''qwen3-32b'' ''a@example.com'' ''Hello'' ''Body''
       ''Mon, 1 Jan 2024'' =
     \<lparr>importance_score = 9, spam_score = 1, category = JStr ''finance'',
      reasoning = JStr ''No reasoning provided'', confidence = 0.92\<rparr>"
    using absent_keys_default_uncoercible_fail [where client = "reply finance_reply"
        and model_name = "''qwen3-32b''" and sender = "''a@example.com''" and subject = "''Hello''"
        and body = "''Body''" and email_date = "''Mon, 1 Jan 2024''" and lib = basic_lib,
        OF c t finance_decoded] k
    by (cases "score_email basic_lib (reply finance_reply) ''qwen3-32b'' ''a@example.com''
          ''Hello'' ''Body'' ''Mon, 1 Jan 2024''") simp
next
  have c: "reply ''{\"importance_score\": null}''
      (completion_request ''qwen3-32b'' ''a@example.com'' ''Hello'' ''Body'' ''Mon, 1 Jan 2024'')
      = Inr [Some ''{\"importance_score\": null}'']"
    by (simp add: reply_def)
  have t: "response_text [Some ''{\"importance_score\": null}''] = Inr ''{\"importance_score\": null}''"
    by code_simp
  have k: "\<not> coercible basic_lib [(''importance_score'', JNull)] ''importance_score''"
    by (simp add: coercible_def)
  show "\<exists>e. score_email basic_lib (reply ''{\"importance_score\": null}'') ''qwen3-32b''
         ''a@example.com'' ''Hello'' ''Body'' ''Mon, 1 Jan 2024'' =
       \<lparr>importance_score = 5, spam_score = 0, category = JStr ''unknown'',
        reasoning = JStr (''Error during scoring: '' @ exc_str e), confidence = 1 / 10\<rparr>"
    using absent_keys_default_uncoercible_fail [where client = "reply ''{\"importance_score\": null}''"
        and model_name = "''qwen3-32b''" and sender = "''a@example.com''" and subject = "''Hello''"
        and body = "''Body''" and email_date = "''Mon, 1 Jan 2024''" and lib = basic_lib,
        OF c t null_decoded] k
    by blast
qed

text \<open>
  The claim as stated fails: a value that is present and is not a number, the boolean
  \<open>true\<close> or the string \<open>"8"\<close>, is converted by \<open>float\<close> and the response is not a
  parse failure.
\<close>

theorem non_numeric_present_counterexample:
  "score_email basic_lib (reply ''{\"importance_score\": true}'') ''qwen3-32b'' ''a@example.com''
       ''Hello'' ''Body'' ''Mon, 1 Jan 2024'' =
     \<lparr>importance_score = 1, spam_score = 0, category = JStr ''unknown'',
      reasoning = JStr ''No reasoning provided'', confidence = 1 / 2\<rparr>
   \<and> score_email basic_lib (reply ''{\"spam_score\": \"8\"}'') ''qwen3-32b'' ''a@example.com''
       ''Hello'' ''Body'' ''Mon, 1 Jan 2024'' =
     \<lparr>importance_score = 5, spam_score = 8, category = JStr ''unknown'',
      reasoning = JStr ''No reasoning provided'', confidence = 1 / 2\<rparr>"
  by code_simp

text \<open>
  Claim C5. A completion that holds both \<open><think>\<close> and \<open></think>\<close> splits at its first
  \<open></think>\<close> into \<open>p\<close> and \<open>r\<close>, and the score is the one computed from \<open>r\<close>, stripped,
  by the steps that follow the removal of the thinking tags: \<open>p\<close> does not occur in the
  result.
\<close>

theorem thinking_prefix_discarded:
  assumes "client (completion_request model_name sender subject body email_date) =
       Inr (Some raw # choices)"
    and "contains raw ''<think>''"
    and "contains raw ''</think>''"
  shows "(\<exists>p r. raw = p @ ''</think>'' @ r \<and> \<not> contains p ''</think>'')
   \<and> (\<forall>p r. raw = p @ ''</think>'' @ r \<and> \<not> contains p ''</think>'' \<longrightarrow>
         score_email lib client model_name sender subject body email_date =
           or_default (case decode_unfenced lib (strip r) of
                         Inl e \<Rightarrow> Inl e
                       | Inr result \<Rightarrow> build_score lib result))"
proof
  show "\<exists>p r. raw = p @ ''</think>'' @ r \<and> \<not> contains p ''</think>''"
    using first_occurrence_split [OF assms(3)] by simp
next
  show "\<forall>p r. raw = p @ ''</think>'' @ r \<and> \<not> contains p ''</think>'' \<longrightarrow>
         score_email lib client model_name sender subject body email_date =
           or_default (case decode_unfenced lib (strip r) of
                         Inl e \<Rightarrow> Inl e
                       | Inr result \<Rightarrow> build_score lib result)"
  proof (intro allI impI)
    fix p r
    assume d: "raw = p @ ''</think>'' @ r \<and> \<not> contains p ''</think>''"
    then have o: "contains (p @ ''</think>'' @ r) ''<think>''"
      using assms(2) by simp
    from d have n: "\<not> contains p ''</think>''" by simp
    note rt = remove_thinking_strip [OF o n]
    have "response_text (Some raw # choices) = Inr (strip (p @ ''</think>'' @ r))"
      using d by (simp add: response_text_def)
    then have "score_email_try lib client model_name sender subject body email_date =
        parse_response lib (strip (p @ ''</think>'' @ r))"
      using assms(1) by (simp add: score_email_try_def)
    also have "\<dots> = (case decode_unfenced lib (strip r) of
                     Inl e \<Rightarrow> Inl e
                   | Inr result \<Rightarrow> build_score lib result)"
      using rt by (simp add: parse_response_def decode_response_def)
    finally show "score_email lib client model_name sender subject body email_date =
           or_default (case decode_unfenced lib (strip r) of
                         Inl e \<Rightarrow> Inl e
                       | Inr result \<Rightarrow> build_score lib result)"
      by (simp add: score_email_def)
  qed
qed

text \<open>An instance: the scenario of the specification.\<close>

theorem thinking_prefix_discarded_witness:
  "score_email basic_lib (reply thinking_reply) ''qwen3-32b'' ''a@example.com'' ''Hello'' ''Body''
       ''Mon, 1 Jan 2024'' =
     \<lparr>importance_score = 9, spam_score = 1, category = JStr ''finance'',
      reasoning = JStr ''No reasoning provided'', confidence = 0.92\<rparr>"
proof -
  define p where "p = ''I think... <think>blah''"
  define r where "r = '' ```json\<newline>{\"importance_score\": 9, \"spam_score\": 1, \"category\": \"finance\", \"confidence\": 0.92}\<newline>```''"
  have d: "thinking_reply = p @ ''</think>'' @ r"
    by (simp add: thinking_reply_def p_def r_def)
  have c: "reply thinking_reply
      (completion_request ''qwen3-32b'' ''a@example.com'' ''Hello'' ''Body'' ''Mon, 1 Jan 2024'')
      = Inr (Some thinking_reply # [])"
    by (simp add: reply_def)
  have o: "contains thinking_reply ''<think>''"
    unfolding thinking_reply_def by code_simp
  have cl: "contains thinking_reply ''</think>''"
    unfolding thinking_reply_def by code_simp
  have n: "\<not> contains p ''</think>''"
    unfolding p_def by code_simp
  have v: "or_default (case decode_unfenced basic_lib (strip r) of
                   Inl e \<Rightarrow> Inl e
                 | Inr result \<Rightarrow> build_score basic_lib result) =
     \<lparr>importance_score = 9, spam_score = 1, category = JStr ''finance'',
      reasoning = JStr ''No reasoning provided'', confidence = 0.92\<rparr>"
    unfolding r_def by code_simp
  show ?thesis
    using thinking_prefix_discarded [where client = "reply thinking_reply"
        and model_name = "''qwen3-32b''" and sender = "''a@example.com''" and subject = "''Hello''"
        and body = "''Body''" and email_date = "''Mon, 1 Jan 2024''" and lib = basic_lib,
        OF c o cl] d n v
    by metis
qed

text \<open>
  Claim C6 fails on the code: the request, and so the score, is the same for two different
  dates, and the date of the message does not occur in the prompt. \<open>score_email\<close> takes
  \<open>email_date\<close> and never uses it, while the prompt template of \<open>config.py\<close> has a
  \<open>DATE\<close> line.
\<close>

theorem prompt_omits_date:
  "completion_request model_name sender subject body ''Mon, 1 Jan 2024'' =
     completion_request model_name sender subject body ''Tue, 2 Jan 2024''
   \<and> score_email lib client model_name sender subject body ''Mon, 1 Jan 2024'' =
     score_email lib client model_name sender subject body ''Tue, 2 Jan 2024''
   \<and> \<not> contains
         (user_content
            (completion_request ''qwen3-32b'' ''a@example.com'' ''Hello'' ''Body''
               ''Mon, 1 Jan 2024''))
         ''Mon, 1 Jan 2024''"
proof (intro conjI)
  show "completion_request model_name sender subject body ''Mon, 1 Jan 2024'' =
     completion_request model_name sender subject body ''Tue, 2 Jan 2024''"
    by (simp add: completion_request_def)
  then show "score_email lib client model_name sender subject body ''Mon, 1 Jan 2024'' =
     score_email lib client model_name sender subject body ''Tue, 2 Jan 2024''"
    by (simp add: score_email_def score_email_try_def)
  show "\<not> contains
         (user_content
            (completion_request ''qwen3-32b'' ''a@example.com'' ''Hello'' ''Body''
               ''Mon, 1 Jan 2024''))
         ''Mon, 1 Jan 2024''"
    by code_simp
qed

text \<open>
  Claim C7. For every score, every label table and every mail service, whatever the
  outcome of each request: \<open>_apply_scoring_labels\<close> makes one request for each decided
  label that the table resolves, in the decided order, whether or not earlier requests
  failed; and the list it returns holds exactly the decided labels whose application
  succeeded, in the order of the attempts.
\<close>

theorem failed_label_does_not_block:
  "apply_scoring_labels service labels calls em score =
     (map (\<lambda>i. decide score ! i)
        (filter (succeeded service labels calls (msg_id em) (decide score))
           [0..<length (decide score)]),
      calls @ requests_for labels (msg_id em) (decide score))"
  unfolding apply_scoring_labels_attempt_each
  using attempt_each_applied [of service labels "msg_id em" "decide score" calls]
    attempt_each_requests [of service labels "msg_id em" "decide score" calls]
  by (simp add: prod_eq_iff)

text \<open>An instance: the service refuses the orders label and the spam label; the other two labels are still requested and recorded.\<close>

theorem failed_label_does_not_block_witness:
  "apply_scoring_labels (refusing [''Label_4'', ''Label_5'']) all_labels [] example_email
       doubtful_score =
     ([''EmailScorer/High-Importance'', ''EmailScorer/Needs-Review''],
      [(''18c2f0a1'', ''Label_4''), (''18c2f0a1'', ''Label_1''),
       (''18c2f0a1'', ''Label_5''), (''18c2f0a1'', ''Label_6'')])"
proof -
  have d: "decide doubtful_score =
     [''EmailScorer/Orders-Shipping'', ''EmailScorer/High-Importance'',
      ''EmailScorer/Likely-Spam'', ''EmailScorer/Needs-Review'']"
    by (simp add: decide_def doubtful_score_def)
  have u: "[0..<4] = [0, Suc 0, Suc (Suc 0), Suc (Suc (Suc 0))]"
    by (simp add: upt_rec)
  show ?thesis
    using failed_label_does_not_block [of "refusing [''Label_4'', ''Label_5'']" all_labels "[]"
        example_email doubtful_score]
    unfolding d
    by (simp add: u succeeded_def requests_for_def List.map_filter_simps all_labels_def
        refusing_def example_email_def)
qed

text \<open>
  Claim C8. After two successful calls of \<open>save_score\<close> with the same message
  identifier, the table holds exactly one row with that identifier, and the row carries
  the sender, subject, time stamp, scores and labels of the second call; after each of
  the calls \<open>is_email_processed\<close> holds for the identifier.
\<close>

theorem save_score_upsert:
  assumes "save_score db t1 e1 s1 l1 = Inr db1"
    and "save_score db1 t2 e2 s2 l2 = Inr db2"
    and "msg_id e2 = msg_id e1"
  shows "filter (\<lambda>r. col_email_id r = msg_id e1) (email_scores db2) =
       [\<lparr>col_id = sequence db2, col_email_id = msg_id e1, col_sender = msg_sender e2,
         col_subject = msg_subject e2, col_date_processed = t2,
         col_importance_score = importance_score s2, col_spam_score = spam_score s2,
         col_category = category s2, col_reasoning = reasoning s2,
         col_confidence = confidence s2, col_model_version = ''v1.0'',
         col_labels_applied = join '','' l2, col_user_feedback = None\<rparr>]
     \<and> is_email_processed db1 (msg_id e1)
     \<and> is_email_processed db2 (msg_id e1)"
proof -
  note r1 = save_score_Inr [OF assms(1)]
  note r2 = save_score_Inr [OF assms(2)]
  have "filter (\<lambda>r. col_email_id r = msg_id e1) (email_scores db2) =
       [\<lparr>col_id = sequence db2, col_email_id = msg_id e1, col_sender = msg_sender e2,
         col_subject = msg_subject e2, col_date_processed = t2,
         col_importance_score = importance_score s2, col_spam_score = spam_score s2,
         col_category = category s2, col_reasoning = reasoning s2,
         col_confidence = confidence s2, col_model_version = ''v1.0'',
         col_labels_applied = join '','' l2, col_user_feedback = None\<rparr>]"
    unfolding r2 assms(3) by (simp only: filter_same_id) simp
  moreover have "is_email_processed db1 (msg_id e1)"
    unfolding is_email_processed_def r1 by simp
  moreover have "is_email_processed db2 (msg_id e1)"
    unfolding is_email_processed_def r2 assms(3) by simp
  ultimately show ?thesis by blast
qed

text \<open>An instance: the same message is saved twice.\<close>

theorem save_score_upsert_witness:
  "filter (\<lambda>r. col_email_id r = ''18c2f0a1'') (email_scores saved_twice) =
       [\<lparr>col_id = 3, col_email_id = ''18c2f0a1'', col_sender = ''Shop <orders@shop.example>'',
         col_subject = ''Your order has shipped'', col_date_processed = 3000000,
         col_importance_score = 9, col_spam_score = 8, col_category = JStr ''orders'',
         col_reasoning = JStr ''Unclear'', col_confidence = 0.5,
         col_model_version = ''v1.0'',
         col_labels_applied = ''EmailScorer/High-Importance,EmailScorer/Needs-Review'',
         col_user_feedback = None\<rparr>]
   \<and> is_email_processed saved_once ''18c2f0a1''
   \<and> is_email_processed saved_twice ''18c2f0a1''"
  using save_score_upsert [OF save_first save_second]
  by (simp add: example_email_def doubtful_score_def saved_twice_def)

text \<open>
  Claim C9. When the start of the window can be computed and no row of the table was
  processed at or after it, \<open>get_performance_stats\<close> returns a total of 0, an average
  confidence of 0, zero counts of important and spam messages and an empty category
  mapping; it raises no exception, in particular no \<open>ZeroDivisionError\<close>.
\<close>

theorem stats_of_empty_window:
  assumes "window days_back = Inr since_date"
    and "list_all (\<lambda>r. col_date_processed r < since_date) (email_scores db)"
  shows "get_performance_stats window db days_back =
     Inr \<lparr>total_processed = 0, avg_confidence = 0, high_importance_count = 0,
          spam_count = 0, categories = Map.empty\<rparr>"
proof -
  have "filter (\<lambda>r. since_date \<le> col_date_processed r) (email_scores db) = []"
    using assms(2) by (auto simp: list_all_iff filter_empty_conv)
  then have "stats_query db since_date = []"
    by (simp add: stats_query_def)
  then show ?thesis
    using assms(1) by (simp add: get_performance_stats_def)
qed

text \<open>An instance: the only row of the table is older than the window of seven days.\<close>

theorem stats_of_empty_window_witness:
  "get_performance_stats (window_at 864000000000) reviewed_db 7 =
     Inr \<lparr>total_processed = 0, avg_confidence = 0, high_importance_count = 0,
          spam_count = 0, categories = Map.empty\<rparr>"
proof -
  have w: "window_at 864000000000 7 = Inr 259200000000"
    by (simp add: window_at_def)
  have old: "list_all (\<lambda>r. col_date_processed r < 259200000000) (email_scores reviewed_db)"
    by (simp add: reviewed_db_def)
  show ?thesis
    using stats_of_empty_window [of "window_at 864000000000" 7 259200000000 reviewed_db] w old
    by simp
qed

text \<open>
  Claim C10 (implicit). A successful \<open>save_score\<close> leaves one row for the message
  identifier, and its \<open>user_feedback\<close> is \<open>NULL\<close>, whatever feedback the table held for
  that identifier before; the rows of other identifiers are left as they were.
\<close>

theorem save_score_resets_feedback:
  assumes "save_score db now em score labels_applied = Inr db'"
  shows "map col_user_feedback (filter (\<lambda>r. col_email_id r = msg_id em) (email_scores db')) = [None]
     \<and> filter (\<lambda>r. col_email_id r \<noteq> msg_id em) (email_scores db') =
         filter (\<lambda>r. col_email_id r \<noteq> msg_id em) (email_scores db)"
  unfolding save_score_Inr [OF assms]
  by (simp add: filter_same_id)

text \<open>An instance: the row held the feedback \<open>incorrect\<close> before the message was saved again.\<close>

theorem save_score_resets_feedback_witness:
  "map col_user_feedback
       (filter (\<lambda>r. col_email_id r = ''18c2f0a1'') (email_scores reviewed_db)) =
     [Some ''incorrect'']
   \<and> map col_user_feedback
       (filter (\<lambda>r. col_email_id r = ''18c2f0a1'') (email_scores saved_once)) = [None]"
  using save_score_resets_feedback [OF save_first]
  by (simp add: example_email_def reviewed_db_def)

end
